theory Spec2Isabelle
  imports Complex_Main "HOL-Library.AList" "HOL-Library.List_Lexorder" "HOL-Library.Char_ord" "HOL-Library.Multiset"
begin

section \<open>Python values\<close>

text \<open>
  The agents exchange decoded JSON: \<^verbatim>\<open>None\<close>, booleans, integers, floats, strings, lists
  and dictionaries with string keys. A Python \<^verbatim>\<open>dict\<close> keeps its keys in insertion order,
  so it is an association list with distinct keys. Floats are kept as exact rationals.
\<close>

datatype json =
    JNull
  | JBool bool
  | JInt int
  | JFloat rat
  | JStr string
  | JArr "json list"
  | JObj "(string \<times> json) list"

type_synonym dict = "(string \<times> json) list"

text \<open>Exceptions carry the text that \<^verbatim>\<open>str(e)\<close> gives.\<close>

datatype exn =
    JSONDecodeError string
  | AttributeError string
  | TypeError string
  | ValueError string
  | OverflowError string
  | KeyError string
  | ZeroDivisionError string
  | ValidationError string
  | RuntimeError string

fun str_exn :: "exn \<Rightarrow> string" where
  "str_exn (JSONDecodeError m) = m"
| "str_exn (AttributeError m) = m"
| "str_exn (TypeError m) = m"
| "str_exn (ValueError m) = m"
| "str_exn (OverflowError m) = m"
| "str_exn (KeyError m) = m"
| "str_exn (ZeroDivisionError m) = m"
| "str_exn (ValidationError m) = m"
| "str_exn (RuntimeError m) = m"

text \<open>\<^verbatim>\<open>d.get(k)\<close>, \<^verbatim>\<open>d.get(k, default)\<close>, \<^verbatim>\<open>k in d\<close>, \<^verbatim>\<open>d[k] = v\<close> and \<^verbatim>\<open>d.update(other)\<close>.\<close>

definition dict_get :: "dict \<Rightarrow> string \<Rightarrow> json option" where
  "dict_get d k = map_of d k"

definition dict_get_default :: "dict \<Rightarrow> string \<Rightarrow> json \<Rightarrow> json" where
  "dict_get_default d k dflt = (case map_of d k of None \<Rightarrow> dflt | Some v \<Rightarrow> v)"

definition dict_contains :: "dict \<Rightarrow> string \<Rightarrow> bool" where
  "dict_contains d k = (map_of d k \<noteq> None)"

definition dict_set :: "dict \<Rightarrow> string \<Rightarrow> json \<Rightarrow> dict" where
  "dict_set d k v = AList.update k v d"

definition dict_update :: "dict \<Rightarrow> dict \<Rightarrow> dict" where
  "dict_update d other = fold (\<lambda>(k, v) acc. dict_set acc k v) other d"

definition dict_keys :: "dict \<Rightarrow> string list" where
  "dict_keys d = map fst d"

text \<open>The name of a value's type, as it appears in Python's error messages.\<close>

fun py_type_name :: "json \<Rightarrow> string" where
  "py_type_name JNull = ''NoneType''"
| "py_type_name (JBool _) = ''bool''"
| "py_type_name (JInt _) = ''int''"
| "py_type_name (JFloat _) = ''float''"
| "py_type_name (JStr _) = ''str''"
| "py_type_name (JArr _) = ''list''"
| "py_type_name (JObj _) = ''dict''"

definition no_attribute :: "json \<Rightarrow> string \<Rightarrow> exn" where
  "no_attribute v a =
     AttributeError ([CHR 0x27] @ py_type_name v @ [CHR 0x27] @ '' object has no attribute ''
                     @ [CHR 0x27] @ a @ [CHR 0x27])"

text \<open>Decimal digits of a natural number, as \<^verbatim>\<open>f"{i}"\<close> prints them.\<close>

definition digit_char :: "nat \<Rightarrow> char" where
  "digit_char d = char_of (48 + d)"

fun str_nat :: "nat \<Rightarrow> string" where
  "str_nat n = (if n < 10 then [digit_char n] else str_nat (n div 10) @ [digit_char (n mod 10)])"

declare str_nat.simps [simp del]

section \<open>The agent manager\<close>

text \<open>
  \<^verbatim>\<open>AgentInput\<close> and \<^verbatim>\<open>AgentOutput\<close> of \<^verbatim>\<open>agents/base.py\<close>. Building an \<^verbatim>\<open>AgentInput\<close> runs
  pydantic's validation, which is a library and may raise; it is the parameter \<open>mk\<close> of
  \<open>process\<close> below. An agent's \<^verbatim>\<open>process\<close> method calls the language model and reads and
  writes the agent's memory and tables: it is a function of the input and of a state
  \<open>'w\<close> of everything outside the manager, returning the new state and either the
  output or the exception raised.
\<close>

record agent_input =
  in_query :: string
  in_context :: json

record agent_output =
  out_output :: string
  out_metadata :: json

type_synonym 'w agent = "agent_input \<Rightarrow> 'w \<Rightarrow> (exn + agent_output) \<times> 'w"

type_synonym validator = "json \<Rightarrow> json \<Rightarrow> exn + agent_input"

definition not_found_result :: "string \<Rightarrow> dict" where
  "not_found_result agent_name =
     [(''status'', JStr ''error''),
      (''message'', JStr (''Agent '' @ [CHR 0x27] @ agent_name @ [CHR 0x27] @ '' not found''))]"

text \<open>\<^verbatim>\<open>AgentManager.process\<close>.\<close>

definition process ::
  "validator \<Rightarrow> (string \<rightharpoonup> 'w agent) \<Rightarrow> string \<Rightarrow> dict \<Rightarrow> 'w \<Rightarrow> (exn + dict) \<times> 'w" where
  "process mk agents agent_name input_data w =
     (case agents agent_name of
        None \<Rightarrow> (Inr (not_found_result agent_name), w)
      | Some agent \<Rightarrow>
          (case mk (dict_get_default input_data ''query'' (JStr ''''))
                   (dict_get_default input_data ''context'' (JObj [])) of
             Inl e \<Rightarrow> (Inl e, w)
           | Inr agent_in \<Rightarrow>
               (case agent agent_in w of
                  (Inr result, w') \<Rightarrow>
                    (Inr [(''status'', JStr ''success''),
                          (''output'', JStr (out_output result)),
                          (''metadata'', out_metadata result)], w')
                | (Inl e, w') \<Rightarrow>
                    (Inr [(''status'', JStr ''error''),
                          (''message'', JStr (str_exn e)),
                          (''agent'', JStr agent_name)], w'))))"

text \<open>
  A workflow step is a dictionary; the request schema (\<^verbatim>\<open>schemas/agent.py\<close>) types its
  \<^verbatim>\<open>agent\<close> as a string and its \<^verbatim>\<open>input\<close> as a dictionary. \<open>None\<close> stands for a key that is
  absent, which is what \<^verbatim>\<open>step.get\<close> sees.
\<close>

record step =
  step_agent :: "string option"
  step_input :: "dict option"

text \<open>\<^verbatim>\<open>not agent_name\<close>: \<^verbatim>\<open>None\<close> and the empty string are false.\<close>

fun falsy_name :: "string option \<Rightarrow> bool" where
  "falsy_name None = True"
| "falsy_name (Some s) = (s = [])"

definition step_key :: "nat \<Rightarrow> string" where
  "step_key i = ''step_'' @ str_nat i"

definition no_agent_result :: dict where
  "no_agent_result = [(''status'', JStr ''error''), (''message'', JStr ''No agent specified'')]"

text \<open>
  Lines 62 to 65 of \<^verbatim>\<open>process_workflow\<close>: the step's input, with the running context
  written into its \<^verbatim>\<open>context\<close> entry by \<^verbatim>\<open>dict.update\<close>. A \<^verbatim>\<open>context\<close> entry that is not a
  dictionary has no \<^verbatim>\<open>update\<close> method.
\<close>

definition step_input_of :: "step \<Rightarrow> dict \<Rightarrow> exn + dict" where
  "step_input_of st running =
     (let inp = (case step_input st of None \<Rightarrow> [] | Some d \<Rightarrow> d);
          inp = (if \<not> dict_contains inp ''context''
                 then dict_set inp ''context'' (JObj []) else inp)
      in case dict_get inp ''context'' of
           Some (JObj c) \<Rightarrow> Inr (dict_set inp ''context'' (JObj (dict_update c running)))
         | Some v \<Rightarrow> Inl (no_attribute v ''update'')
         | None \<Rightarrow> Inl (KeyError ''context''))"

text \<open>
  The state of the loop of \<^verbatim>\<open>process_workflow\<close>: \<open>Running\<close> while the loop goes on with
  the results, the context and the outside state; \<open>Broke\<close> after \<^verbatim>\<open>break\<close>; \<open>Raised\<close> when
  an exception leaves the function.
\<close>

datatype 'w loop =
    Running dict dict 'w
  | Broke dict 'w
  | Raised exn 'w

text \<open>
  Lines 69 to 78: what the loop does with the value of \<^verbatim>\<open>self.process\<close>. The call is
  awaited inside the loop with no handler, so an exception leaves \<^verbatim>\<open>process_workflow\<close>.
\<close>

definition after_dispatch ::
  "nat \<Rightarrow> string \<Rightarrow> dict \<Rightarrow> dict \<Rightarrow> (exn + dict) \<times> 'w \<Rightarrow> 'w loop" where
  "after_dispatch i agent_name results running r =
     (case r of
        (Inl e, w') \<Rightarrow> Raised e w'
      | (Inr result, w') \<Rightarrow>
          (let results = dict_set results (step_key i) (JObj result)
           in if dict_get result ''status'' = Some (JStr ''error'')
              then Broke (dict_set (dict_set results ''status'' (JStr ''error''))
                            ''failed_step'' (JInt (int i))) w'
              else Running results (dict_set running agent_name (JObj result)) w'))"

text \<open>One iteration of the loop, lines 53 to 78.\<close>

definition workflow_body ::
  "validator \<Rightarrow> (string \<rightharpoonup> 'w agent) \<Rightarrow> nat \<Rightarrow> step \<Rightarrow> dict \<Rightarrow> dict \<Rightarrow> 'w \<Rightarrow> 'w loop" where
  "workflow_body mk agents i st results running w =
     (if falsy_name (step_agent st)
      then Running (dict_set results (step_key i) (JObj no_agent_result)) running w
      else
        (case step_input_of st running of
           Inl e \<Rightarrow> Raised e w
         | Inr inp \<Rightarrow>
             after_dispatch i (the (step_agent st)) results running
               (process mk agents (the (step_agent st)) inp w)))"

fun workflow_loop ::
  "validator \<Rightarrow> (string \<rightharpoonup> 'w agent) \<Rightarrow> nat \<Rightarrow> step list \<Rightarrow> 'w loop \<Rightarrow> 'w loop" where
  "workflow_loop mk agents i [] s = s"
| "workflow_loop mk agents i (st # rest) (Running results running w) =
     workflow_loop mk agents (Suc i) rest (workflow_body mk agents i st results running w)"
| "workflow_loop mk agents i (st # rest) s = s"

text \<open>\<^verbatim>\<open>AgentManager.process_workflow\<close>.\<close>

definition finish :: "dict \<Rightarrow> dict" where
  "finish results =
     (if \<not> dict_contains results ''status''
      then dict_set results ''status'' (JStr ''success'') else results)"

definition process_workflow ::
  "validator \<Rightarrow> (string \<rightharpoonup> 'w agent) \<Rightarrow> step list \<Rightarrow> 'w \<Rightarrow> (exn + dict) \<times> 'w" where
  "process_workflow mk agents workflow w =
     (case workflow_loop mk agents 0 workflow (Running [] [] w) of
        Running results running w' \<Rightarrow> (Inr (finish results), w')
      | Broke results w' \<Rightarrow> (Inr (finish results), w')
      | Raised e w' \<Rightarrow> (Inl e, w'))"

text \<open>
  A dispatched step succeeds when its input can be built and \<^verbatim>\<open>process\<close> returns a result
  whose status is not \<^verbatim>\<open>error\<close>.
\<close>

definition step_succeeds ::
  "validator \<Rightarrow> (string \<rightharpoonup> 'w agent) \<Rightarrow> step \<Rightarrow> dict \<Rightarrow> 'w \<Rightarrow> bool" where
  "step_succeeds mk agents st running w =
     (case step_input_of st running of
        Inl e \<Rightarrow> False
      | Inr inp \<Rightarrow>
          (case process mk agents (the (step_agent st)) inp w of
             (Inl e, w') \<Rightarrow> False
           | (Inr result, w') \<Rightarrow> dict_get result ''status'' \<noteq> Some (JStr ''error'')))"

subsection \<open>A registry to run workflows on\<close>

text \<open>
  The four registered names, each bound to an agent that answers with the query it was
  given and appends its input to the outside state, which is the list of the inputs
  dispatched so far; and a validator that accepts a string as the query.
\<close>

definition demo_validator :: validator where
  "demo_validator q c =
     (case q of JStr s \<Rightarrow> Inr \<lparr>in_query = s, in_context = c\<rparr>
      | _ \<Rightarrow> Inl (ValidationError ''query: str type expected''))"

definition recording_agent :: "string \<Rightarrow> agent_input list agent" where
  "recording_agent name a seen =
     (Inr \<lparr>out_output = in_query a, out_metadata = JObj [(''agent'', JStr name)]\<rparr>, seen @ [a])"

definition demo_agents :: "string \<rightharpoonup> agent_input list agent" where
  "demo_agents = map_of
     [(''search'', recording_agent ''SearchAgent''),
      (''optimizer'', recording_agent ''OptimizerAgent''),
      (''payment'', recording_agent ''PaymentAgent''),
      (''notification'', recording_agent ''NotificationAgent'')]"

definition failing_workflow :: "step list" where
  "failing_workflow =
     [\<lparr>step_agent = Some ''search'',
       step_input = Some [(''query'', JStr ''search_flights''),
                          (''context'', JObj [(''origin'', JStr ''A'')])]\<rparr>,
      \<lparr>step_agent = Some ''badagent'', step_input = Some []\<rparr>,
      \<lparr>step_agent = Some ''payment'', step_input = Some [(''query'', JStr ''pay'')]\<rparr>]"

definition nameless_workflow :: "step list" where
  "nameless_workflow =
     [\<lparr>step_agent = Some ''search'', step_input = Some [(''query'', JStr ''search_flights'')]\<rparr>,
      \<lparr>step_agent = None, step_input = Some [(''query'', JStr ''anything'')]\<rparr>,
      \<lparr>step_agent = Some ''optimizer'', step_input = None\<rparr>]"

definition colliding_workflow :: "step list" where
  "colliding_workflow =
     [\<lparr>step_agent = Some ''search'', step_input = Some [(''query'', JStr ''search_flights'')]\<rparr>,
      \<lparr>step_agent = Some ''optimizer'',
       step_input = Some [(''query'', JStr ''rank''),
                          (''context'', JObj [(''search'', JStr ''mine'')])]\<rparr>]"

section \<open>Tools\<close>

text \<open>
  A tool takes the raw payload, a string, and returns a string. What the tools use of
  Python and its standard library is gathered in one record: the JSON decoder and
  encoder, \<^verbatim>\<open>str()\<close> as used by f-strings, \<^verbatim>\<open>==\<close> on decoded values, \<^verbatim>\<open>float()\<close> and \<^verbatim>\<open>int()\<close>
  on strings, and \<^verbatim>\<open>>\<close> on lists.
\<close>

record pylib =
  loads :: "string \<Rightarrow> exn + json"
  dumps :: "json \<Rightarrow> string"
  str_of :: "json \<Rightarrow> string"
  eq_of :: "json \<Rightarrow> json \<Rightarrow> bool"
  float_of_str :: "string \<Rightarrow> exn + rat"
  int_of_str :: "string \<Rightarrow> exn + int"
  list_gt :: "json list \<Rightarrow> json list \<Rightarrow> exn + bool"

definition error_result :: "exn \<Rightarrow> json" where
  "error_result e = JObj [(''status'', JStr ''error''), (''message'', JStr (str_exn e))]"

text \<open>
  Every tool has the same frame:
  \<^verbatim>\<open>try: data = json.loads(query); ...; return json.dumps(...)\<close>
  \<^verbatim>\<open>except Exception as e: return json.dumps({"status": "error", "message": str(e)})\<close>.
  The body works on the decoded payload and on the tables of its agent; what it has
  written before raising stays written.
\<close>

definition tool_call ::
  "pylib \<Rightarrow> (json \<Rightarrow> 's \<Rightarrow> (exn + json) \<times> 's) \<Rightarrow> string \<Rightarrow> 's \<Rightarrow> string \<times> 's" where
  "tool_call lib body query s =
     (case loads lib query of
        Inl e \<Rightarrow> (dumps lib (error_result e), s)
      | Inr data \<Rightarrow>
          (case body data s of
             (Inl e, s') \<Rightarrow> (dumps lib (error_result e), s')
           | (Inr r, s') \<Rightarrow> (dumps lib r, s')))"


text \<open>\<^verbatim>\<open>data.get(k, default)\<close> on a decoded value: only a dictionary has \<^verbatim>\<open>get\<close>.\<close>

definition py_get :: "json \<Rightarrow> string \<Rightarrow> json \<Rightarrow> exn + json" where
  "py_get data k dflt =
     (case data of JObj d \<Rightarrow> Inr (dict_get_default d k dflt) | _ \<Rightarrow> Inl (no_attribute data ''get''))"

text \<open>The same, telling an absent key apart, for a default that is not a JSON value.\<close>

definition py_get_opt :: "json \<Rightarrow> string \<Rightarrow> exn + json option" where
  "py_get_opt data k =
     (case data of JObj d \<Rightarrow> Inr (dict_get d k) | _ \<Rightarrow> Inl (no_attribute data ''get''))"

text \<open>Truth value of a decoded value.\<close>

fun truthy :: "json \<Rightarrow> bool" where
  "truthy JNull = False"
| "truthy (JBool b) = b"
| "truthy (JInt i) = (i \<noteq> 0)"
| "truthy (JFloat r) = (r \<noteq> 0)"
| "truthy (JStr s) = (s \<noteq> [])"
| "truthy (JArr xs) = (xs \<noteq> [])"
| "truthy (JObj d) = (d \<noteq> [])"

text \<open>
  \<^verbatim>\<open>key in table\<close> and \<^verbatim>\<open>table[key]\<close> for a table keyed by strings: a list or a dictionary
  cannot be hashed, and any other value that is not a string is no key of the table.
\<close>

definition unhashable :: "json \<Rightarrow> exn" where
  "unhashable v = TypeError (''unhashable type: '' @ [CHR 0x27] @ py_type_name v @ [CHR 0x27])"

definition table_find :: "json \<Rightarrow> (string \<times> 'v) list \<Rightarrow> exn + (string \<times> 'v) option" where
  "table_find k t =
     (case k of
        JArr xs \<Rightarrow> Inl (unhashable k)
      | JObj d \<Rightarrow> Inl (unhashable k)
      | JStr s \<Rightarrow> Inr (case map_of t s of None \<Rightarrow> None | Some v \<Rightarrow> Some (s, v))
      | _ \<Rightarrow> Inr None)"

text \<open>Running a function that may raise over a list, in order, up to the first exception.\<close>

fun map_exn :: "('a \<Rightarrow> exn + 'b) \<Rightarrow> 'a list \<Rightarrow> exn + 'b list" where
  "map_exn f [] = Inr []"
| "map_exn f (x # xs) =
     (case f x of
        Inl e \<Rightarrow> Inl e
      | Inr y \<Rightarrow> (case map_exn f xs of Inl e \<Rightarrow> Inl e | Inr ys \<Rightarrow> Inr (y # ys)))"


subsection \<open>Notification agent\<close>

text \<open>
  A notification is a dictionary with a fixed set of keys, written by
  \<^verbatim>\<open>_send_notification\<close> and \<^verbatim>\<open>_mark_notification_read\<close> only: \<^verbatim>\<open>is_read\<close> is always a boolean,
  \<^verbatim>\<open>created_at\<close> always the ISO string of a time, and \<^verbatim>\<open>read_at\<close> is absent until the
  notification is marked. The table \<^verbatim>\<open>self.notifications\<close> maps identifiers to
  notifications, in insertion order. The time of a call, \<^verbatim>\<open>datetime.utcnow().isoformat()\<close>,
  is an argument \<open>now\<close>.
\<close>

record notification =
  notification_id :: string
  user_id :: json
  title :: json
  message :: json
  notification_type :: json
  metadata :: json
  is_read :: bool
  created_at :: string
  read_at :: "string option"

type_synonym notifications = "(string \<times> notification) list"


text \<open>
  \<^verbatim>\<open>_send_notification\<close>. The three \<^verbatim>\<open>print\<close> calls write to the standard output and change
  nothing else; they are left out.
\<close>

definition send_notification_body ::
  "string \<Rightarrow> json \<Rightarrow> notifications \<Rightarrow> (exn + json) \<times> notifications" where
  "send_notification_body now data ns =
     (let nid = ''notif_'' @ str_nat (length ns + 1) in
      case data of
        JObj d \<Rightarrow>
          (let n = \<lparr>notification_id = nid,
                    user_id = dict_get_default d ''user_id'' JNull,
                    title = dict_get_default d ''title'' JNull,
                    message = dict_get_default d ''message'' JNull,
                    notification_type = dict_get_default d ''notification_type'' (JStr ''email''),
                    metadata = dict_get_default d ''metadata'' (JObj []),
                    is_read = False,
                    created_at = now,
                    read_at = None\<rparr>
           in (Inr (JObj [(''status'', JStr ''success''),
                          (''notification_id'', JStr nid),
                          (''message'', JStr ''Notification sent successfully'')]),
               AList.update nid n ns))
      | _ \<Rightarrow> (Inl (no_attribute data ''get''), ns))"





text \<open>\<^verbatim>\<open>_mark_notification_read\<close>.\<close>

definition mark_notification_read_body ::
  "string \<Rightarrow> json \<Rightarrow> notifications \<Rightarrow> (exn + json) \<times> notifications" where
  "mark_notification_read_body now data ns =
     (case py_get data ''notification_id'' JNull of
        Inl e \<Rightarrow> (Inl e, ns)
      | Inr nid \<Rightarrow>
          (case table_find nid ns of
             Inl e \<Rightarrow> (Inl e, ns)
           | Inr None \<Rightarrow>
               (Inr (JObj [(''status'', JStr ''error''),
                           (''message'', JStr ''Notification not found'')]), ns)
           | Inr (Some (k, n)) \<Rightarrow>
               (let n = n\<lparr>is_read := True\<rparr>;
                    n = n\<lparr>read_at := Some now\<rparr>
                in (Inr (JObj [(''status'', JStr ''success''),
                               (''message'', JStr ''Notification marked as read'')]),
                    AList.update k n ns))))"

definition mark_notification_read ::
  "pylib \<Rightarrow> string \<Rightarrow> string \<Rightarrow> notifications \<Rightarrow> string \<times> notifications" where
  "mark_notification_read lib now = tool_call lib (mark_notification_read_body now)"

subsection \<open>Payment agent\<close>

text \<open>
  A transaction is a dictionary with a fixed set of keys, written by \<^verbatim>\<open>_process_payment\<close>
  and \<^verbatim>\<open>_process_refund\<close> only; the three refund keys are absent until a refund. The first
  sixteen hexadecimal digits of a fresh \<^verbatim>\<open>uuid.uuid4()\<close> are an argument \<open>token\<close>.
\<close>

record transaction =
  transaction_id :: string
  amount :: json
  currency :: json
  status :: string
  payment_method :: json
  booking_reference :: json
  payer_id :: json
  timestamp :: string
  refund_id :: "string option"
  refund_amount :: "json option"
  refund_timestamp :: "string option"

type_synonym transactions = "(string \<times> transaction) list"


text \<open>\<^verbatim>\<open>_process_payment\<close>, with its constant \<^verbatim>\<open>payment_successful = True\<close>.\<close>

definition process_payment_body ::
  "string \<Rightarrow> string \<Rightarrow> json \<Rightarrow> transactions \<Rightarrow> (exn + json) \<times> transactions" where
  "process_payment_body token now data ts =
     (let tid = ''txn_'' @ token;
          payment_successful = True in
      case data of
        JObj d \<Rightarrow>
          (let t = \<lparr>transaction_id = tid,
                    amount = dict_get_default d ''amount'' JNull,
                    currency = dict_get_default d ''currency'' (JStr ''USD''),
                    status = (if payment_successful then ''completed'' else ''failed''),
                    payment_method = dict_get_default d ''payment_method'' JNull,
                    booking_reference = dict_get_default d ''booking_reference'' JNull,
                    payer_id = dict_get_default d ''user_id'' JNull,
                    timestamp = now,
                    refund_id = None,
                    refund_amount = None,
                    refund_timestamp = None\<rparr>
           in (Inr (JObj [(''status'', JStr (if payment_successful then ''success'' else ''error'')),
                          (''transaction_id'', JStr tid),
                          (''message'', JStr (if payment_successful
                                               then ''Payment processed successfully''
                                               else ''Payment failed''))]),
               AList.update tid t ts))
      | _ \<Rightarrow> (Inl (no_attribute data ''get''), ts))"


text \<open>\<^verbatim>\<open>_process_refund\<close>, with its constant \<^verbatim>\<open>refund_successful = True\<close>.\<close>

definition process_refund_body ::
  "string \<Rightarrow> string \<Rightarrow> json \<Rightarrow> transactions \<Rightarrow> (exn + json) \<times> transactions" where
  "process_refund_body token now data ts =
     (case py_get data ''transaction_id'' JNull of
        Inl e \<Rightarrow> (Inl e, ts)
      | Inr tid \<Rightarrow>
          (case table_find tid ts of
             Inl e \<Rightarrow> (Inl e, ts)
           | Inr None \<Rightarrow>
               (Inr (JObj [(''status'', JStr ''error''),
                           (''message'', JStr ''Transaction not found'')]), ts)
           | Inr (Some (k, t)) \<Rightarrow>
               (case py_get data ''amount'' (amount t) of
                  Inl e \<Rightarrow> (Inl e, ts)
                | Inr refund_amt \<Rightarrow>
                    (let refund_successful = True in
                     if refund_successful
                     then
                       (let rid = ''ref_'' @ token;
                            t = t\<lparr>refund_id := Some rid\<rparr>;
                            t = t\<lparr>refund_amount := Some refund_amt\<rparr>;
                            t = t\<lparr>refund_timestamp := Some now\<rparr>
                        in (Inr (JObj [(''status'', JStr ''success''),
                                       (''refund_id'', JStr rid),
                                       (''amount_refunded'', refund_amt),
                                       (''message'', JStr ''Refund processed successfully'')]),
                            AList.update k t ts))
                     else (Inr (JObj [(''status'', JStr ''error''),
                                      (''message'', JStr ''Refund failed'')]), ts)))))"

definition process_refund ::
  "pylib \<Rightarrow> string \<Rightarrow> string \<Rightarrow> string \<Rightarrow> transactions \<Rightarrow> string \<times> transactions" where
  "process_refund lib token now = tool_call lib (process_refund_body token now)"



subsection \<open>Search agent\<close>





subsection \<open>Optimizer agent\<close>

text \<open>
  Numbers. A decoded number is an integer or a float, and a boolean counts as \<open>0\<close> or \<open>1\<close>
  in arithmetic. Floats are kept exact, so rounding is not modelled, and the decoder's
  \<^verbatim>\<open>NaN\<close> and \<^verbatim>\<open>Infinity\<close> are not values of the model. \<^verbatim>\<open>float('inf')\<close>, the default of the
  two selection tools, is the value \<open>PosInf\<close> below.
\<close>

fun num_val :: "json \<Rightarrow> rat option" where
  "num_val (JInt i) = Some (of_int i)"
| "num_val (JFloat r) = Some r"
| "num_val (JBool b) = Some (if b then 1 else 0)"
| "num_val _ = None"

datatype pyfloat = Fin rat | PosInf

fun float_less :: "pyfloat \<Rightarrow> pyfloat \<Rightarrow> bool" where
  "float_less (Fin a) (Fin b) = (a < b)"
| "float_less (Fin a) PosInf = True"
| "float_less PosInf _ = False"

definition quoted_type :: "json \<Rightarrow> string" where
  "quoted_type v = [CHR 0x27] @ py_type_name v @ [CHR 0x27]"

text \<open>\<^verbatim>\<open>float(x.get("price", float('inf')))\<close>, on the value of the key or on the default.\<close>

definition py_float :: "pylib \<Rightarrow> json option \<Rightarrow> exn + pyfloat" where
  "py_float lib x =
     (case x of
        None \<Rightarrow> Inr PosInf
      | Some v \<Rightarrow>
          (case num_val v of
             Some r \<Rightarrow> Inr (Fin r)
           | None \<Rightarrow>
               (case v of
                  JStr s \<Rightarrow> (case float_of_str lib s of Inl e \<Rightarrow> Inl e | Inr r \<Rightarrow> Inr (Fin r))
                | _ \<Rightarrow> Inl (TypeError (''float() argument must be a string or a real number, not ''
                                        @ quoted_type v)))))"

text \<open>
  \<^verbatim>\<open>int(x.get("duration_minutes", float('inf')))\<close>: \<^verbatim>\<open>int\<close> truncates a float towards zero and
  raises \<^verbatim>\<open>OverflowError\<close> on an infinite one.
\<close>

definition truncate :: "rat \<Rightarrow> int" where
  "truncate r = (if 0 \<le> r then \<lfloor>r\<rfloor> else \<lceil>r\<rceil>)"

definition py_int :: "pylib \<Rightarrow> json option \<Rightarrow> exn + int" where
  "py_int lib x =
     (case x of
        None \<Rightarrow> Inl (OverflowError ''cannot convert float infinity to integer'')
      | Some v \<Rightarrow>
          (case v of
             JInt i \<Rightarrow> Inr i
           | JFloat r \<Rightarrow> Inr (truncate r)
           | JBool b \<Rightarrow> Inr (if b then 1 else 0)
           | JStr s \<Rightarrow> int_of_str lib s
           | _ \<Rightarrow> Inl (TypeError
                 (''int() argument must be a string, a bytes-like object or a real number, not ''
                  @ quoted_type v))))"

text \<open>Iterating over a decoded value: a list, the characters of a string, the keys of a dictionary.\<close>

definition py_iter :: "json \<Rightarrow> exn + json list" where
  "py_iter v =
     (case v of
        JArr xs \<Rightarrow> Inr xs
      | JStr s \<Rightarrow> Inr (map (\<lambda>c. JStr [c]) s)
      | JObj d \<Rightarrow> Inr (map (\<lambda>p. JStr (fst p)) d)
      | _ \<Rightarrow> Inl (TypeError (quoted_type v @ '' object is not iterable'')))"

text \<open>
  \<^verbatim>\<open>min(xs, key=f)\<close>, once the keys are computed: a scan that keeps the first element of
  least key.
\<close>

fun scan_min :: "('k \<Rightarrow> 'k \<Rightarrow> bool) \<Rightarrow> 'a \<times> 'k \<Rightarrow> ('a \<times> 'k) list \<Rightarrow> 'a" where
  "scan_min lt best [] = fst best"
| "scan_min lt best (x # xs) = scan_min lt (if lt (snd x) (snd best) then x else best) xs"

definition min_by :: "('k \<Rightarrow> 'k \<Rightarrow> bool) \<Rightarrow> ('a \<times> 'k) list \<Rightarrow> exn + 'a" where
  "min_by lt xs =
     (case xs of
        [] \<Rightarrow> Inl (ValueError ''min() arg is an empty sequence'')
      | x # rest \<Rightarrow> Inr (scan_min lt x rest))"

definition no_options :: json where
  "no_options = JObj [(''status'', JStr ''error''), (''message'', JStr ''No options provided'')]"

text \<open>\<^verbatim>\<open>_find_cheapest_option\<close>.\<close>

definition find_cheapest_option_body :: "pylib \<Rightarrow> json \<Rightarrow> exn + json" where
  "find_cheapest_option_body lib data =
     (case py_get data ''options'' (JArr []) of
        Inl e \<Rightarrow> Inl e
      | Inr options \<Rightarrow>
          if \<not> truthy options then Inr no_options
          else
            (case py_iter options of
               Inl e \<Rightarrow> Inl e
             | Inr items \<Rightarrow>
                 (case map_exn (\<lambda>x. case py_get_opt x ''price'' of
                                       Inl e \<Rightarrow> Inl e
                                     | Inr p \<Rightarrow> py_float lib p) items of
                    Inl e \<Rightarrow> Inl e
                  | Inr keys \<Rightarrow>
                      (case min_by float_less (zip items keys) of
                         Inl e \<Rightarrow> Inl e
                       | Inr cheapest \<Rightarrow>
                           Inr (JObj [(''status'', JStr ''success''), (''result'', cheapest)])))))"


text \<open>\<^verbatim>\<open>_find_fastest_option\<close>.\<close>

definition find_fastest_option_body :: "pylib \<Rightarrow> json \<Rightarrow> exn + json" where
  "find_fastest_option_body lib data =
     (case py_get data ''options'' (JArr []) of
        Inl e \<Rightarrow> Inl e
      | Inr options \<Rightarrow>
          if \<not> truthy options then Inr no_options
          else
            (case py_iter options of
               Inl e \<Rightarrow> Inl e
             | Inr items \<Rightarrow>
                 (case map_exn (\<lambda>x. case py_get_opt x ''duration_minutes'' of
                                       Inl e \<Rightarrow> Inl e
                                     | Inr p \<Rightarrow> py_int lib p) items of
                    Inl e \<Rightarrow> Inl e
                  | Inr keys \<Rightarrow>
                      (case min_by (<) (zip items keys) of
                         Inl e \<Rightarrow> Inl e
                       | Inr fastest \<Rightarrow>
                           Inr (JObj [(''status'', JStr ''success''), (''result'', fastest)])))))"












subsection \<open>A library to run the tools on\<close>

text \<open>
  A stand-in for the library, for running tool bodies on decoded payloads: its decoder
  finds every payload malformed, its encoder keeps only the status, and it converts no
  string to a number.
\<close>

definition test_lib :: pylib where
  "test_lib =
     \<lparr>loads = (\<lambda>q. Inl (JSONDecodeError ''Expecting value: line 1 column 1 (char 0)'')),
      dumps = (\<lambda>j. case j of JObj ((k, JStr s) # _) \<Rightarrow> s | _ \<Rightarrow> []),
      str_of = (\<lambda>j. case j of JStr s \<Rightarrow> s | _ \<Rightarrow> ''None''),
      eq_of = (=),
      float_of_str = (\<lambda>s. Inl (ValueError (''could not convert string to float: '' @ s))),
      int_of_str = (\<lambda>s. Inl (ValueError (''invalid literal for int() with base 10: '' @ s))),
      list_gt = (\<lambda>xs ys. Inr False)\<rparr>"

text \<open>
  A library whose decoder yields a given decoded payload, and the tables the tools are
  run on below: one payment, one notification, and that notification marked once and
  twice.
\<close>

definition decoding :: "json \<Rightarrow> pylib" where
  "decoding payload = test_lib\<lparr>loads := (\<lambda>q. Inr payload)\<rparr>"

definition paid_transactions :: transactions where
  "paid_transactions =
     snd (process_payment_body ''0123456789abcdef'' ''2024-01-01T09:00:00''
            (JObj [(''amount'', JInt 250), (''currency'', JStr ''EUR''),
                   (''payment_method'', JStr ''card''), (''booking_reference'', JStr ''BK1''),
                   (''user_id'', JInt 7)]) [])"

definition refund_payload :: dict where
  "refund_payload = [(''transaction_id'', JStr ''txn_0123456789abcdef'')]"

definition one_notification :: notifications where
  "one_notification =
     snd (send_notification_body ''2024-01-01T09:00:00''
            (JObj [(''user_id'', JInt 7), (''title'', JStr ''Booked''),
                   (''message'', JStr ''Your trip is booked'')]) [])"

definition mark_payload :: dict where
  "mark_payload = [(''notification_id'', JStr ''notif_1'')]"

definition marked_once :: notifications where
  "marked_once =
     snd (mark_notification_read_body ''2024-01-02T10:00:00'' (JObj mark_payload) one_notification)"

definition marked_twice :: notifications where
  "marked_twice =
     snd (mark_notification_read_body ''2024-01-03T11:30:00'' (JObj mark_payload) marked_once)"



subsection \<open>The score as a formula\<close>








section \<open>Dictionaries and step keys\<close>

lemma digit_char_inj: "a < 10 \<Longrightarrow> b < 10 \<Longrightarrow> digit_char a = digit_char b \<Longrightarrow> a = b"
  by (simp add: digit_char_def char_of_eq_iff take_bit_eq_mod)

lemma str_nat_nonempty: "str_nat n \<noteq> []" "[] \<noteq> str_nat n"
  by (subst str_nat.simps, simp)+

lemma str_nat_inj: "str_nat n = str_nat m \<Longrightarrow> n = m"
proof (induction n arbitrary: m rule: str_nat.induct)
  case (1 n)
  show ?case
  proof (cases "n < 10")
    case True
    show ?thesis
    proof (cases "m < 10")
      case mlt: True
      from "1.prems" True mlt have "digit_char n = digit_char m"
        by (simp add: str_nat.simps[of n] str_nat.simps[of m])
      with True mlt show ?thesis by (blast dest: digit_char_inj)
    next
      case False
      with "1.prems" True show ?thesis
        by (simp add: str_nat.simps[of n] str_nat.simps[of m] str_nat_nonempty)
    qed
  next
    case False
    show ?thesis
    proof (cases "m < 10")
      case True
      with "1.prems" False show ?thesis
        by (simp add: str_nat.simps[of n] str_nat.simps[of m] str_nat_nonempty)
    next
      case mge: False
      from "1.prems" False mge
      have eq: "str_nat (n div 10) = str_nat (m div 10)"
        and d: "digit_char (n mod 10) = digit_char (m mod 10)"
        by (simp_all add: str_nat.simps[of n] str_nat.simps[of m])
      from "1.IH"[OF False eq] have "n div 10 = m div 10" .
      moreover from d have "n mod 10 = m mod 10" by (intro digit_char_inj) simp_all
      ultimately show ?thesis by (metis div_mult_mod_eq)
    qed
  qed
qed

lemma step_key_inj: "step_key i = step_key j \<longleftrightarrow> i = j"
  by (auto simp: step_key_def dest: str_nat_inj)

lemma step_key_not_status: "step_key i \<noteq> ''status''" "step_key i \<noteq> ''failed_step''"
  by (simp_all add: step_key_def)

lemma dict_keys_set:
  "dict_keys (dict_set d k v) = (if k \<in> set (dict_keys d) then dict_keys d else dict_keys d @ [k])"
  by (simp add: dict_keys_def dict_set_def update_keys)

lemma dict_get_set: "dict_get (dict_set d k v) k' = (if k' = k then Some v else dict_get d k')"
  by (simp add: dict_get_def dict_set_def update_conv')

lemma dict_contains_keys: "dict_contains d k \<longleftrightarrow> k \<in> set (dict_keys d)"
  by (simp add: dict_contains_def dict_keys_def map_of_eq_None_iff)

lemma distinct_dict_set: "distinct (dict_keys d) \<Longrightarrow> distinct (dict_keys (dict_set d k v))"
  by (simp add: dict_keys_def dict_set_def distinct_update)

section \<open>Dispatch by name\<close>

text \<open>
  C3. For an agent name that is not a key of the registry, and any input,
  \<^verbatim>\<open>AgentManager.process\<close> returns the dictionary with status \<^verbatim>\<open>error\<close> and message
  \<^verbatim>\<open>Agent '<name>' not found\<close>; it returns a value and raises nothing, and no agent runs:
  the outside state is the one it was given, and neither the validator nor the input is
  looked at.
\<close>

theorem process_unknown_agent:
  "agents agent_name = None \<Longrightarrow>
   process mk agents agent_name input_data w =
     (Inr [(''status'', JStr ''error''),
           (''message'', JStr (''Agent '' @ [CHR 0x27] @ agent_name @ [CHR 0x27] @ '' not found''))],
      w)"
  by (simp add: process_def not_found_result_def)

theorem process_unknown_agent_witness:
  "demo_agents ''badagent'' = None \<and>
   process demo_validator demo_agents ''badagent'' [(''query'', JStr ''hello'')] [] =
     (Inr [(''status'', JStr ''error''),
           (''message'', JStr (''Agent '' @ [CHR 0x27] @ ''badagent'' @ [CHR 0x27] @ '' not found''))],
      [])"
proof -
  have h: "demo_agents ''badagent'' = None" by (simp add: demo_agents_def)
  from process_unknown_agent[where agents = demo_agents and agent_name = "''badagent''"
         and mk = demo_validator and input_data = "[(''query'', JStr ''hello'')]"
         and w = "[]", OF h] h
  show ?thesis by simp
qed

section \<open>The workflow loop\<close>

lemma body_falsy:
  "falsy_name (step_agent st) \<Longrightarrow>
   workflow_body mk agents i st results running w =
     Running (dict_set results (step_key i) (JObj no_agent_result)) running w"
  by (simp add: workflow_body_def)

lemma body_Running:
  assumes "workflow_body mk agents i st results running w = Running r' c' w'"
  shows "(\<exists>v. r' = dict_set results (step_key i) v) \<and>
         (distinct (dict_keys running) \<longrightarrow> distinct (dict_keys c'))"
  using assms
  by (auto simp: workflow_body_def after_dispatch_def Let_def distinct_dict_set
           split: if_splits sum.splits prod.splits)

lemma loop_stopped:
  "workflow_loop mk agents i steps (Broke r w) = Broke r w"
  "workflow_loop mk agents i steps (Raised e w) = Raised e w"
  by (cases steps; simp)+

lemma loop_append:
  "workflow_loop mk agents i (xs @ ys) s =
   workflow_loop mk agents (i + length xs) ys (workflow_loop mk agents i xs s)"
proof (induction xs arbitrary: i s)
  case Nil
  show ?case by simp
next
  case (Cons x xs)
  show ?case by (cases s) (simp_all add: Cons.IH loop_stopped)
qed

lemma step_key_fresh: "step_key i \<notin> set (map step_key [0..<i])"
  by (auto simp: step_key_inj)

lemma loop_Running_inv:
  assumes "workflow_loop mk agents i steps (Running r c w) = Running r' c' w'"
    and "dict_keys r = map step_key [0..<i]" and "distinct (dict_keys c)"
  shows "dict_keys r' = map step_key [0..<i + length steps] \<and> distinct (dict_keys c')"
  using assms
proof (induction steps arbitrary: i r c w)
  case Nil
  then show ?case by simp
next
  case (Cons st rest)
  let ?s = "workflow_body mk agents i st r c w"
  from Cons.prems(1) have run: "workflow_loop mk agents (Suc i) rest ?s = Running r' c' w'"
    by simp
  then obtain r1 c1 w1 where s: "?s = Running r1 c1 w1"
    by (cases ?s) (simp_all add: loop_stopped)
  from body_Running[OF s] Cons.prems(3)
  obtain v where r1: "r1 = dict_set r (step_key i) v" and d1: "distinct (dict_keys c1)"
    by blast
  have k1: "dict_keys r1 = map step_key [0..<Suc i]"
    using step_key_fresh[of i] by (simp add: r1 dict_keys_set Cons.prems(2))
  from Cons.IH[OF run[unfolded s] k1 d1] show ?case by simp
qed

lemma reserved_keys:
  "''status'' \<notin> set (map step_key xs)" "''failed_step'' \<notin> set (map step_key xs)"
  by (auto simp: step_key_def)


lemma body_succeeds:
  "\<not> falsy_name (step_agent st) \<Longrightarrow> step_succeeds mk agents st running w \<Longrightarrow>
   \<exists>r' c' w'. workflow_body mk agents i st results running w = Running r' c' w'"
  by (auto simp: workflow_body_def after_dispatch_def step_succeeds_def Let_def
           split: sum.splits prod.splits)

lemma loop_snoc:
  "workflow_loop mk agents 0 (take k steps) (Running [] [] w) = Running r c wk \<Longrightarrow> k < length steps \<Longrightarrow>
   workflow_loop mk agents 0 (take (Suc k) steps) (Running [] [] w) = workflow_body mk agents k (steps ! k) r c wk"
proof -
  assume prefix: "workflow_loop mk agents 0 (take k steps) (Running [] [] w) = Running r c wk"
    and k: "k < length steps"
  have len: "length (take k steps) = k" using k by simp
  have "workflow_loop mk agents 0 (take k steps @ [steps ! k]) (Running [] [] w)
          = workflow_body mk agents k (steps ! k) r c wk"
    by (simp only: loop_append prefix len) simp
  then show ?thesis using k by (simp add: take_Suc_conv_app_nth)
qed

lemma loop_rest:
  "workflow_loop mk agents 0 (take k steps) (Running [] [] w) = s \<Longrightarrow> k \<le> length steps \<Longrightarrow>
   workflow_loop mk agents 0 steps (Running [] [] w) = workflow_loop mk agents k (drop k steps) s"
proof -
  assume prefix: "workflow_loop mk agents 0 (take k steps) (Running [] [] w) = s" and k: "k \<le> length steps"
  have len: "length (take k steps) = k" using k by simp
  have "workflow_loop mk agents 0 (take k steps @ drop k steps) (Running [] [] w)
          = workflow_loop mk agents k (drop k steps) s"
    by (simp only: loop_append prefix len) simp
  then show ?thesis by simp
qed

lemma loop_Running_keeps:
  assumes "workflow_loop mk agents i steps (Running r c w) = Running r' c' w'" and "j < i"
  shows "dict_get r' (step_key j) = dict_get r (step_key j)"
  using assms
proof (induction steps arbitrary: i r c w)
  case Nil
  then show ?case by simp
next
  case (Cons st rest)
  let ?s = "workflow_body mk agents i st r c w"
  from Cons.prems(1) have run: "workflow_loop mk agents (Suc i) rest ?s = Running r' c' w'"
    by simp
  then obtain r1 c1 w1 where s: "?s = Running r1 c1 w1"
    by (cases ?s) (simp_all add: loop_stopped)
  from body_Running[OF s] obtain v where r1: "r1 = dict_set r (step_key i) v" by blast
  from Cons.prems(2) have "j < Suc i" by simp
  from Cons.IH[OF run[unfolded s] this]
  have "dict_get r' (step_key j) = dict_get r1 (step_key j)" .
  also have "\<dots> = dict_get r (step_key j)"
    using Cons.prems(2) by (simp add: r1 dict_get_set step_key_inj)
  finally show ?case .
qed

lemma all_steps_run:
  assumes H: "\<forall>k<length steps. \<forall>r c wk.
          workflow_loop mk agents 0 (take k steps) (Running [] [] w) = Running r c wk \<longrightarrow>
          falsy_name (step_agent (steps ! k)) \<or> step_succeeds mk agents (steps ! k) c wk"
    and n: "n \<le> length steps"
  shows "\<exists>r c w'. workflow_loop mk agents 0 (take n steps) (Running [] [] w) = Running r c w'"
  using n
proof (induction n)
  case 0
  show ?case by simp
next
  case (Suc n)
  then have n: "n < length steps" by simp
  from Suc obtain r c wk
    where prefix: "workflow_loop mk agents 0 (take n steps) (Running [] [] w) = Running r c wk"
    by auto
  from H n prefix
  have "falsy_name (step_agent (steps ! n)) \<or> step_succeeds mk agents (steps ! n) c wk" by blast
  then have "\<exists>r' c' w'. workflow_body mk agents n (steps ! n) r c wk = Running r' c' w'"
    using body_falsy body_succeeds by metis
  then show ?case by (simp add: loop_snoc[OF prefix n])
qed

lemma dict_update_get:
  "distinct (dict_keys other) \<Longrightarrow>
   dict_get (dict_update d other) x = (case dict_get other x of Some v \<Rightarrow> Some v | None \<Rightarrow> dict_get d x)"
  unfolding dict_update_def
proof (induction other arbitrary: d)
  case Nil
  show ?case by (simp add: dict_get_def)
next
  case (Cons p rest)
  obtain k v where p: "p = (k, v)" by (cases p)
  from Cons.prems have d: "distinct (dict_keys rest)" and nk: "k \<notin> set (dict_keys rest)"
    by (simp_all add: p dict_keys_def)
  from nk have none: "dict_get rest k = None"
    by (simp add: dict_get_def dict_keys_def map_of_eq_None_iff)
  show ?case
    using Cons.IH[OF d, of "dict_set d k v"] none
    by (auto simp: p dict_get_def dict_set_def update_conv' split: option.splits)
qed

subsection \<open>Evaluating the demonstration workflows\<close>

lemmas demo_defs = demo_validator_def demo_agents_def recording_agent_def
  failing_workflow_def nameless_workflow_def colliding_workflow_def
  process_def workflow_body_def after_dispatch_def step_input_of_def
  dict_get_def dict_set_def dict_contains_def dict_get_default_def dict_update_def
  not_found_result_def no_agent_result_def step_succeeds_def

lemma step_key_0: "step_key 0 = ''step_0''" by code_simp
lemma step_key_1: "step_key (Suc 0) = ''step_1''" by code_simp
lemma step_key_2: "step_key (Suc (Suc 0)) = ''step_2''" by code_simp


section \<open>Fail-fast\<close>

text \<open>
  C1. Let the steps before index \<open>k\<close> run without stopping the loop, and let step \<open>k\<close>
  have an agent name and be dispatched to \<^verbatim>\<open>process\<close>, which returns a result whose status is
  \<^verbatim>\<open>error\<close>. Then \<^verbatim>\<open>process_workflow\<close> returns a dictionary whose keys are, in insertion
  order, \<^verbatim>\<open>step_0\<close> to \<^verbatim>\<open>step_k\<close>, \<^verbatim>\<open>status\<close> and \<^verbatim>\<open>failed_step\<close>; the entry of \<^verbatim>\<open>step_k\<close> is
  the failing result, the status is \<^verbatim>\<open>error\<close> and \<^verbatim>\<open>failed_step\<close> is \<open>k\<close>. No step after \<open>k\<close>
  is attempted: the outside state is the one left by the dispatch of step \<open>k\<close>, and the
  workflow cut after step \<open>k\<close> gives the same result and state.
\<close>

theorem fail_fast:
  assumes k: "k < length workflow"
    and prefix: "workflow_loop mk agents 0 (take k workflow) (Running [] [] w) = Running results running wk"
    and named: "\<not> falsy_name (step_agent (workflow ! k))"
    and inp: "step_input_of (workflow ! k) running = Inr inp"
    and disp: "process mk agents (the (step_agent (workflow ! k))) inp wk = (Inr result, w')"
    and err: "dict_get result ''status'' = Some (JStr ''error'')"
  shows "\<exists>R. process_workflow mk agents workflow w = (Inr R, w') \<and>
             dict_keys R = map step_key [0..<Suc k] @ [''status'', ''failed_step''] \<and>
             dict_get R (step_key k) = Some (JObj result) \<and>
             dict_get R ''status'' = Some (JStr ''error'') \<and>
             dict_get R ''failed_step'' = Some (JInt (int k)) \<and>
             process_workflow mk agents (take (Suc k) workflow) w = (Inr R, w')"
proof -
  let ?R = "dict_set (dict_set (dict_set results (step_key k) (JObj result))
                        ''status'' (JStr ''error'')) ''failed_step'' (JInt (int k))"
  have body: "workflow_body mk agents k (workflow ! k) results running wk = Broke ?R w'"
    using named inp disp err by (simp add: workflow_body_def after_dispatch_def)
  have keys: "dict_keys results = map step_key [0..<k]"
    using loop_Running_inv[OF prefix] k by (simp add: dict_keys_def)
  have split: "workflow = take k workflow @ (workflow ! k) # drop (Suc k) workflow"
    using k by (simp add: id_take_nth_drop)
  have len: "length (take k workflow) = k" using k by simp
  have "workflow_loop mk agents 0 (take k workflow @ (workflow ! k) # drop (Suc k) workflow)
          (Running [] [] w) = Broke ?R w'"
    by (simp only: loop_append prefix len) (simp add: body loop_stopped)
  then have whole: "workflow_loop mk agents 0 workflow (Running [] [] w) = Broke ?R w'"
    using split by simp
  have "take (Suc k) workflow = take k workflow @ [workflow ! k]"
    using k by (simp add: take_Suc_conv_app_nth)
  moreover have "workflow_loop mk agents 0 (take k workflow @ [workflow ! k]) (Running [] [] w)
                   = Broke ?R w'"
    by (simp only: loop_append prefix len) (simp add: body)
  ultimately
  have part: "workflow_loop mk agents 0 (take (Suc k) workflow) (Running [] [] w) = Broke ?R w'"
    by simp
  have k1: "dict_keys (dict_set results (step_key k) (JObj result)) = map step_key [0..<Suc k]"
    using step_key_fresh[of k] by (simp add: dict_keys_set keys)
  have k2: "dict_keys (dict_set (dict_set results (step_key k) (JObj result))
                         ''status'' (JStr ''error'')) = map step_key [0..<Suc k] @ [''status'']"
    using reserved_keys(1)[of "[0..<Suc k]"] by (simp only: dict_keys_set[of _ "''status''"] k1 if_False)
  have kR: "dict_keys ?R = map step_key [0..<Suc k] @ [''status'', ''failed_step'']"
    using reserved_keys(2)[of "[0..<Suc k]"] by (simp add: dict_keys_set[of _ "''failed_step''"] k2)
  have fin: "finish ?R = ?R"
    by (simp add: finish_def dict_contains_keys kR)
  have g1: "dict_get ?R (step_key k) = Some (JObj result)"
    by (simp add: dict_get_set step_key_not_status)
  have g2: "dict_get ?R ''status'' = Some (JStr ''error'')"
    by (simp add: dict_get_set)
  have g3: "dict_get ?R ''failed_step'' = Some (JInt (int k))"
    by (simp add: dict_get_set)
  have p1: "process_workflow mk agents workflow w = (Inr ?R, w')"
    by (simp add: process_workflow_def whole fin)
  have p2: "process_workflow mk agents (take (Suc k) workflow) w = (Inr ?R, w')"
    by (simp add: process_workflow_def part fin)
  from p1 p2 kR g1 g2 g3 show ?thesis by blast
qed

theorem fail_fast_witness:
  "\<exists>R. process_workflow demo_validator demo_agents failing_workflow [] =
          (Inr R, [\<lparr>in_query = ''search_flights'', in_context = JObj [(''origin'', JStr ''A'')]\<rparr>]) \<and>
       dict_keys R = [''step_0'', ''step_1'', ''status'', ''failed_step''] \<and>
       dict_get R ''step_1'' = Some (JObj (not_found_result ''badagent'')) \<and>
       dict_get R ''status'' = Some (JStr ''error'') \<and>
       dict_get R ''failed_step'' = Some (JInt 1) \<and>
       process_workflow demo_validator demo_agents (take 2 failing_workflow) [] =
          (Inr R, [\<lparr>in_query = ''search_flights'', in_context = JObj [(''origin'', JStr ''A'')]\<rparr>])"
proof -
  let ?r0 = "[(''status'', JStr ''success''), (''output'', JStr ''search_flights''),
              (''metadata'', JObj [(''agent'', JStr ''SearchAgent'')])]"
  let ?seen = "[\<lparr>in_query = ''search_flights'', in_context = JObj [(''origin'', JStr ''A'')]\<rparr>]"
  have h1: "Suc 0 < length failing_workflow" by (simp add: failing_workflow_def)
  have h2: "workflow_loop demo_validator demo_agents 0 (take (Suc 0) failing_workflow) (Running [] [] [])
              = Running [(''step_0'', JObj ?r0)] [(''search'', JObj ?r0)] ?seen"
    by (simp add: demo_defs step_key_0)
  have h3: "\<not> falsy_name (step_agent (failing_workflow ! Suc 0))"
    by (simp add: failing_workflow_def)
  have h4: "step_input_of (failing_workflow ! Suc 0) [(''search'', JObj ?r0)]
              = Inr [(''context'', JObj [(''search'', JObj ?r0)])]"
    by (simp add: demo_defs)
  have h5: "process demo_validator demo_agents (the (step_agent (failing_workflow ! Suc 0)))
              [(''context'', JObj [(''search'', JObj ?r0)])] ?seen
              = (Inr (not_found_result ''badagent''), ?seen)"
    by (simp add: demo_defs)
  have h6: "dict_get (not_found_result ''badagent'') ''status'' = Some (JStr ''error'')"
    by (simp add: demo_defs)
  from fail_fast[OF h1 h2 h3 h4 h5 h6] show ?thesis
    by (simp add: step_key_0 step_key_1 numeral_2_eq_2)
qed


section \<open>Steps without an agent name\<close>

text \<open>
  C4. A step without an agent name does not stop the loop: when the loop reaches index
  \<open>i\<close> and the step there has no agent name, it records the result with status \<^verbatim>\<open>error\<close> and
  message \<^verbatim>\<open>No agent specified\<close> under \<^verbatim>\<open>step_i\<close> and goes on to the next step with the same
  context and outside state. And when every step that the loop reaches either has no
  agent name or succeeds, every step gets its entry, \<^verbatim>\<open>step_0\<close> to the last, the final
  status is \<^verbatim>\<open>success\<close>, and each nameless step's entry is that error result.
\<close>

theorem nameless_step_continues:
  "(workflow_loop mk agents 0 (take i workflow) (Running [] [] w) = Running results running wi \<and>
    i < length workflow \<and> falsy_name (step_agent (workflow ! i)) \<longrightarrow>
      workflow_loop mk agents 0 (take (Suc i) workflow) (Running [] [] w) =
        Running (dict_set results (step_key i) (JObj no_agent_result)) running wi)
   \<and>
   ((\<forall>k<length workflow. \<forall>r c wk.
        workflow_loop mk agents 0 (take k workflow) (Running [] [] w) = Running r c wk \<longrightarrow>
        falsy_name (step_agent (workflow ! k)) \<or> step_succeeds mk agents (workflow ! k) c wk) \<longrightarrow>
      (\<exists>R w'. process_workflow mk agents workflow w = (Inr R, w') \<and>
              dict_keys R = map step_key [0..<length workflow] @ [''status''] \<and>
              dict_get R ''status'' = Some (JStr ''success'') \<and>
              (\<forall>j<length workflow. falsy_name (step_agent (workflow ! j)) \<longrightarrow>
                  dict_get R (step_key j) = Some (JObj no_agent_result))))"
proof (intro conjI impI)
  assume "workflow_loop mk agents 0 (take i workflow) (Running [] [] w) = Running results running wi \<and>
          i < length workflow \<and> falsy_name (step_agent (workflow ! i))"
  then show "workflow_loop mk agents 0 (take (Suc i) workflow) (Running [] [] w) =
               Running (dict_set results (step_key i) (JObj no_agent_result)) running wi"
    by (simp add: loop_snoc body_falsy)
next
  assume H: "\<forall>k<length workflow. \<forall>r c wk.
        workflow_loop mk agents 0 (take k workflow) (Running [] [] w) = Running r c wk \<longrightarrow>
        falsy_name (step_agent (workflow ! k)) \<or> step_succeeds mk agents (workflow ! k) c wk"
  from all_steps_run[OF H, of "length workflow"] obtain r c w'
    where whole: "workflow_loop mk agents 0 workflow (Running [] [] w) = Running r c w'"
    by auto
  have keys: "dict_keys r = map step_key [0..<length workflow]"
    using loop_Running_inv[OF whole] by (simp add: dict_keys_def)
  let ?R = "dict_set r ''status'' (JStr ''success'')"
  have fin: "finish r = ?R"
    using reserved_keys(1)[of "[0..<length workflow]"]
    by (simp add: finish_def dict_contains_keys keys)
  have p: "process_workflow mk agents workflow w = (Inr ?R, w')"
    by (simp add: process_workflow_def whole fin)
  have kR: "dict_keys ?R = map step_key [0..<length workflow] @ [''status'']"
    using reserved_keys(1)[of "[0..<length workflow]"]
    by (simp only: dict_keys_set keys if_False)
  have st: "dict_get ?R ''status'' = Some (JStr ''success'')"
    by (simp add: dict_get_set)
  have entries: "dict_get ?R (step_key j) = Some (JObj no_agent_result)"
    if j: "j < length workflow" and f: "falsy_name (step_agent (workflow ! j))" for j
  proof -
    from all_steps_run[OF H, of j] j obtain rj cj wj
      where pre: "workflow_loop mk agents 0 (take j workflow) (Running [] [] w) = Running rj cj wj"
      by auto
    have nxt: "workflow_loop mk agents 0 (take (Suc j) workflow) (Running [] [] w)
                 = Running (dict_set rj (step_key j) (JObj no_agent_result)) cj wj"
      by (simp add: loop_snoc[OF pre j] body_falsy[OF f])
    from loop_rest[OF nxt] j whole
    have "workflow_loop mk agents (Suc j) (drop (Suc j) workflow)
            (Running (dict_set rj (step_key j) (JObj no_agent_result)) cj wj) = Running r c w'"
      by simp
    from loop_Running_keeps[OF this, of j]
    have "dict_get r (step_key j) = Some (JObj no_agent_result)"
      by (simp add: dict_get_set)
    then show ?thesis by (simp add: dict_get_set step_key_not_status)
  qed
  from p kR st entries
  show "\<exists>R w'. process_workflow mk agents workflow w = (Inr R, w') \<and>
              dict_keys R = map step_key [0..<length workflow] @ [''status''] \<and>
              dict_get R ''status'' = Some (JStr ''success'') \<and>
              (\<forall>j<length workflow. falsy_name (step_agent (workflow ! j)) \<longrightarrow>
                  dict_get R (step_key j) = Some (JObj no_agent_result))"
    by blast
qed

theorem nameless_step_continues_witness:
  "workflow_loop demo_validator demo_agents 0 (take 2 nameless_workflow) (Running [] [] []) =
     Running [(''step_0'', JObj [(''status'', JStr ''success''), (''output'', JStr ''search_flights''),
                                 (''metadata'', JObj [(''agent'', JStr ''SearchAgent'')])]),
              (''step_1'', JObj [(''status'', JStr ''error''), (''message'', JStr ''No agent specified'')])]
             [(''search'', JObj [(''status'', JStr ''success''), (''output'', JStr ''search_flights''),
                                 (''metadata'', JObj [(''agent'', JStr ''SearchAgent'')])])]
             [\<lparr>in_query = ''search_flights'', in_context = JObj []\<rparr>]
   \<and> (\<exists>R w'. process_workflow demo_validator demo_agents nameless_workflow [] = (Inr R, w') \<and>
          dict_keys R = [''step_0'', ''step_1'', ''step_2'', ''status''] \<and>
          dict_get R ''status'' = Some (JStr ''success'') \<and>
          dict_get R ''step_1'' = Some (JObj no_agent_result))"
proof -
  let ?r0 = "[(''status'', JStr ''success''), (''output'', JStr ''search_flights''),
              (''metadata'', JObj [(''agent'', JStr ''SearchAgent'')])]"
  let ?seen = "[\<lparr>in_query = ''search_flights'', in_context = JObj []\<rparr>]"
  note inst = nameless_step_continues[where mk = demo_validator and agents = demo_agents
      and workflow = nameless_workflow and w = "[]" and i = "Suc 0"
      and results = "[(''step_0'', JObj ?r0)]" and running = "[(''search'', JObj ?r0)]"
      and wi = ?seen]
  have a1: "workflow_loop demo_validator demo_agents 0 (take (Suc 0) nameless_workflow) (Running [] [] [])
              = Running [(''step_0'', JObj ?r0)] [(''search'', JObj ?r0)] ?seen"
    by (simp add: demo_defs step_key_0)
  have a2: "Suc 0 < length nameless_workflow" by (simp add: nameless_workflow_def)
  have a3: "falsy_name (step_agent (nameless_workflow ! Suc 0))" by (simp add: nameless_workflow_def)
  have len: "length nameless_workflow = Suc (Suc (Suc 0))" by (simp add: nameless_workflow_def)
  have b: "\<forall>k<length nameless_workflow. \<forall>r c wk.
        workflow_loop demo_validator demo_agents 0 (take k nameless_workflow) (Running [] [] []) = Running r c wk \<longrightarrow>
        falsy_name (step_agent (nameless_workflow ! k)) \<or>
        step_succeeds demo_validator demo_agents (nameless_workflow ! k) c wk"
    unfolding len
    by (simp add: less_Suc_eq all_conj_distrib demo_defs step_key_0 step_key_1 step_key_2 imp_conjL)
  from inst a1 a2 a3 b
  have c1: "workflow_loop demo_validator demo_agents 0 (take (Suc (Suc 0)) nameless_workflow) (Running [] [] []) =
        Running (dict_set [(''step_0'', JObj ?r0)] (step_key (Suc 0)) (JObj no_agent_result))
          [(''search'', JObj ?r0)] ?seen"
    and c2: "\<exists>R w'. process_workflow demo_validator demo_agents nameless_workflow [] = (Inr R, w') \<and>
              dict_keys R = map step_key [0..<length nameless_workflow] @ [''status''] \<and>
              dict_get R ''status'' = Some (JStr ''success'') \<and>
              (\<forall>j<length nameless_workflow. falsy_name (step_agent (nameless_workflow ! j)) \<longrightarrow>
                  dict_get R (step_key j) = Some (JObj no_agent_result))"
    by blast+
  from c2 a2 a3 obtain R w' where
    "process_workflow demo_validator demo_agents nameless_workflow [] = (Inr R, w')"
    "dict_keys R = map step_key [0..<length nameless_workflow] @ [''status'']"
    "dict_get R ''status'' = Some (JStr ''success'')"
    "dict_get R (step_key (Suc 0)) = Some (JObj no_agent_result)"
    by blast
  then have "\<exists>R w'. process_workflow demo_validator demo_agents nameless_workflow [] = (Inr R, w') \<and>
          dict_keys R = [''step_0'', ''step_1'', ''step_2'', ''status''] \<and>
          dict_get R ''status'' = Some (JStr ''success'') \<and>
          dict_get R ''step_1'' = Some (JObj no_agent_result)"
    by (simp add: len step_key_0 step_key_1 step_key_2 upt_rec)
  with c1 show ?thesis
    by (simp add: numeral_2_eq_2 step_key_1 dict_set_def no_agent_result_def)
qed

section \<open>Context precedence\<close>

text \<open>
  The merge of line 65 is \<^verbatim>\<open>step_input["context"].update(context)\<close>: \<^verbatim>\<open>dict.update\<close> writes
  every entry of the running context into the step's own context, replacing the value
  of a key that the step had bound itself. In the workflow below the second step binds
  \<^verbatim>\<open>search\<close> to the string \<^verbatim>\<open>mine\<close> in its own context; the first step, run by the agent
  \<^verbatim>\<open>search\<close>, succeeds, so the running context binds \<^verbatim>\<open>search\<close> to its result. The contexts
  that the two agents receive are listed: the second one holds the inherited result, not
  the step's own value.
\<close>

theorem explicit_context_overwritten_counterexample:
  "map in_context (snd (process_workflow demo_validator demo_agents colliding_workflow [])) =
     [JObj [],
      JObj [(''search'', JObj [(''status'', JStr ''success''), (''output'', JStr ''search_flights''),
                               (''metadata'', JObj [(''agent'', JStr ''SearchAgent'')])])]]
   \<and> step_input (colliding_workflow ! 1) =
        Some [(''query'', JStr ''rank''), (''context'', JObj [(''search'', JStr ''mine'')])]"
  by (simp add: process_workflow_def demo_defs finish_def step_key_0 step_key_1)


text \<open>
  C2, as the code has it. When the loop reaches step \<open>k\<close>, which has an agent name and whose
  input has a dictionary \<open>c\<close> as its context, the step is dispatched with an input whose
  context binds every key of the running context to the inherited value, also where
  \<open>c\<close> binds the key itself; the step's own value is kept for exactly the keys that the
  running context does not bind.
\<close>

theorem inherited_context_overwrites:
  assumes prefix: "workflow_loop mk agents 0 (take k workflow) (Running [] [] w) = Running results running wk"
    and k: "k < length workflow"
    and named: "\<not> falsy_name (step_agent (workflow ! k))"
    and d: "step_input (workflow ! k) = Some d"
    and c: "dict_get d ''context'' = Some (JObj c)"
    and x: "dict_get running x = Some a"
  shows "\<exists>inp c'. step_input_of (workflow ! k) running = Inr inp \<and>
           workflow_loop mk agents 0 (take (Suc k) workflow) (Running [] [] w) =
             after_dispatch k (the (step_agent (workflow ! k))) results running
               (process mk agents (the (step_agent (workflow ! k))) inp wk) \<and>
           dict_get inp ''context'' = Some (JObj c') \<and>
           dict_get c' x = Some a \<and>
           (\<forall>y. dict_get running y = None \<longrightarrow> dict_get c' y = dict_get c y)"
proof -
  let ?c' = "dict_update c running"
  let ?inp = "dict_set d ''context'' (JObj ?c')"
  have dist: "distinct (dict_keys running)"
    using loop_Running_inv[OF prefix] by (simp add: dict_keys_def)
  have has: "dict_contains d ''context''"
    using c by (simp add: dict_contains_def dict_get_def)
  have inp: "step_input_of (workflow ! k) running = Inr ?inp"
    using has c by (simp add: step_input_of_def d)
  have body: "workflow_loop mk agents 0 (take (Suc k) workflow) (Running [] [] w) =
             after_dispatch k (the (step_agent (workflow ! k))) results running
               (process mk agents (the (step_agent (workflow ! k))) ?inp wk)"
    using named by (simp add: loop_snoc[OF prefix k] workflow_body_def inp)
  have g: "dict_get ?inp ''context'' = Some (JObj ?c')"
    by (simp add: dict_get_set)
  have gx: "dict_get ?c' x = Some a"
    by (simp add: dict_update_get[OF dist] x)
  have gy: "\<forall>y. dict_get running y = None \<longrightarrow> dict_get ?c' y = dict_get c y"
    by (simp add: dict_update_get[OF dist])
  from inp body g gx gy show ?thesis by blast
qed


theorem inherited_context_overwrites_witness:
  "\<exists>inp c'. step_input_of (colliding_workflow ! 1)
              [(''search'', JObj [(''status'', JStr ''success''), (''output'', JStr ''search_flights''),
                                  (''metadata'', JObj [(''agent'', JStr ''SearchAgent'')])])] = Inr inp \<and>
     dict_get inp ''context'' = Some (JObj c') \<and>
     dict_get c' ''search'' =
       Some (JObj [(''status'', JStr ''success''), (''output'', JStr ''search_flights''),
                   (''metadata'', JObj [(''agent'', JStr ''SearchAgent'')])])"
proof -
  let ?r0 = "[(''status'', JStr ''success''), (''output'', JStr ''search_flights''),
              (''metadata'', JObj [(''agent'', JStr ''SearchAgent'')])]"
  let ?seen = "[\<lparr>in_query = ''search_flights'', in_context = JObj []\<rparr>]"
  have h1: "workflow_loop demo_validator demo_agents 0 (take (Suc 0) colliding_workflow) (Running [] [] [])
              = Running [(''step_0'', JObj ?r0)] [(''search'', JObj ?r0)] ?seen"
    by (simp add: demo_defs step_key_0)
  have h2: "Suc 0 < length colliding_workflow" by (simp add: colliding_workflow_def)
  have h3: "\<not> falsy_name (step_agent (colliding_workflow ! Suc 0))"
    by (simp add: colliding_workflow_def)
  have h4: "step_input (colliding_workflow ! Suc 0) =
              Some [(''query'', JStr ''rank''), (''context'', JObj [(''search'', JStr ''mine'')])]"
    by (simp add: colliding_workflow_def)
  have h5: "dict_get [(''query'', JStr ''rank''), (''context'', JObj [(''search'', JStr ''mine'')])]
              ''context'' = Some (JObj [(''search'', JStr ''mine'')])"
    by (simp add: dict_get_def)
  have h6: "dict_get [(''search'', JObj ?r0)] ''search'' = Some (JObj ?r0)"
    by (simp add: dict_get_def)
  from inherited_context_overwrites[OF h1 h2 h3 h4 h5 h6] show ?thesis
    by auto
qed

section \<open>The tool frame\<close>

lemma tool_call_decoded:
  "loads lib query = Inr data \<Longrightarrow>
   tool_call lib body query s =
     (case body data s of
        (Inl e, s') \<Rightarrow> (dumps lib (error_result e), s')
      | (Inr r, s') \<Rightarrow> (dumps lib r, s'))"
  by (simp add: tool_call_def)


lemma table_find_str:
  "table_find (JStr k) t = Inr (case map_of t k of None \<Rightarrow> None | Some v \<Rightarrow> Some (k, v))"
  by (simp add: table_find_def)

lemma table_find_Some:
  "table_find v t = Inr (Some (k, x)) \<Longrightarrow> v = JStr k \<and> map_of t k = Some x"
  by (auto simp: table_find_def split: json.splits option.splits)

lemma str_nat_1: "str_nat (Suc 0) = ''1''" by code_simp

lemmas store_defs = paid_transactions_def one_notification_def marked_once_def marked_twice_def
  mark_payload_def refund_payload_def decoding_def test_lib_def
  process_payment_body_def send_notification_body_def mark_notification_read_body_def
  py_get_def dict_get_default_def dict_get_def table_find_def Let_def str_nat_1


section \<open>Refunds\<close>

text \<open>
  C8. When the payload names a transaction of the table and has no \<^verbatim>\<open>amount\<close> key,
  \<^verbatim>\<open>_process_refund\<close> succeeds, returns the transaction's own amount as \<^verbatim>\<open>amount_refunded\<close>
  and stores that amount as the transaction's \<^verbatim>\<open>refund_amount\<close>, with the refund identifier
  and the time of the call. When the payload names no transaction of the table, the tool
  returns a result of status \<^verbatim>\<open>error\<close> and leaves the table as it was.
\<close>

theorem refund_defaults_to_amount:
  "(loads lib query = Inr (JObj d) \<and> dict_get d ''transaction_id'' = Some (JStr k) \<and>
    map_of ts k = Some t \<and> dict_get d ''amount'' = None \<longrightarrow>
      process_refund lib token now query ts =
        (dumps lib (JObj [(''status'', JStr ''success''),
                          (''refund_id'', JStr (''ref_'' @ token)),
                          (''amount_refunded'', amount t),
                          (''message'', JStr ''Refund processed successfully'')]),
         AList.update k (t\<lparr>refund_id := Some (''ref_'' @ token),
                            refund_amount := Some (amount t),
                            refund_timestamp := Some now\<rparr>) ts))
   \<and>
   (loads lib query = Inr (JObj d) \<and>
    (\<forall>k. dict_get d ''transaction_id'' = Some (JStr k) \<longrightarrow> map_of ts k = None) \<longrightarrow>
      (\<exists>m. process_refund lib token now query ts =
             (dumps lib (JObj [(''status'', JStr ''error''), (''message'', JStr m)]), ts)))"
proof (intro conjI impI)
  assume "loads lib query = Inr (JObj d) \<and> dict_get d ''transaction_id'' = Some (JStr k) \<and>
          map_of ts k = Some t \<and> dict_get d ''amount'' = None"
  then show "process_refund lib token now query ts =
        (dumps lib (JObj [(''status'', JStr ''success''),
                          (''refund_id'', JStr (''ref_'' @ token)),
                          (''amount_refunded'', amount t),
                          (''message'', JStr ''Refund processed successfully'')]),
         AList.update k (t\<lparr>refund_id := Some (''ref_'' @ token),
                            refund_amount := Some (amount t),
                            refund_timestamp := Some now\<rparr>) ts)"
    by (simp add: process_refund_def tool_call_decoded process_refund_body_def py_get_def
          dict_get_default_def dict_get_def table_find_str Let_def)
next
  assume a: "loads lib query = Inr (JObj d) \<and>
    (\<forall>k. dict_get d ''transaction_id'' = Some (JStr k) \<longrightarrow> map_of ts k = None)"
  let ?tid = "dict_get_default d ''transaction_id'' JNull"
  have nf: "table_find ?tid ts \<noteq> Inr (Some (k, x))" for k x
  proof
    assume "table_find ?tid ts = Inr (Some (k, x))"
    from table_find_Some[OF this] have "?tid = JStr k" and m: "map_of ts k = Some x" by simp_all
    then have "dict_get d ''transaction_id'' = Some (JStr k)"
      by (auto simp: dict_get_default_def dict_get_def split: option.splits)
    with a m show False by simp
  qed
  show "\<exists>m. process_refund lib token now query ts =
             (dumps lib (JObj [(''status'', JStr ''error''), (''message'', JStr m)]), ts)"
  proof (cases "table_find ?tid ts")
    case (Inl e)
    with a have "process_refund lib token now query ts =
        (dumps lib (JObj [(''status'', JStr ''error''), (''message'', JStr (str_exn e))]), ts)"
      by (simp add: process_refund_def tool_call_decoded process_refund_body_def py_get_def
            error_result_def)
    then show ?thesis by blast
  next
    case (Inr found)
    with nf have "found = None" by (cases found) auto
    with Inr a have "process_refund lib token now query ts =
        (dumps lib (JObj [(''status'', JStr ''error''), (''message'', JStr ''Transaction not found'')]), ts)"
      by (simp add: process_refund_def tool_call_decoded process_refund_body_def py_get_def)
    then show ?thesis by blast
  qed
qed

theorem refund_defaults_to_amount_witness:
  "process_refund (decoding (JObj refund_payload)) ''fedcba9876543210'' ''2024-01-05T08:00:00''
     [] paid_transactions =
     (dumps (decoding (JObj refund_payload))
        (JObj [(''status'', JStr ''success''),
               (''refund_id'', JStr ''ref_fedcba9876543210''),
               (''amount_refunded'', JInt 250),
               (''message'', JStr ''Refund processed successfully'')]),
      [(''txn_0123456789abcdef'',
        \<lparr>transaction_id = ''txn_0123456789abcdef'', amount = JInt 250,
           currency = JStr ''EUR'', status = ''completed'',
           payment_method = JStr ''card'', booking_reference = JStr ''BK1'',
           payer_id = JInt 7, timestamp = ''2024-01-01T09:00:00'',
           refund_id = Some ''ref_fedcba9876543210'', refund_amount = Some (JInt 250),
           refund_timestamp = Some ''2024-01-05T08:00:00''\<rparr>)])
   \<and> (\<exists>m. process_refund (decoding (JObj refund_payload)) ''fedcba9876543210''
            ''2024-01-05T08:00:00'' [] [] =
          (dumps (decoding (JObj refund_payload))
             (JObj [(''status'', JStr ''error''), (''message'', JStr m)]), []))"
proof -
  let ?t = "\<lparr>transaction_id = ''txn_0123456789abcdef'', amount = JInt 250,
           currency = JStr ''EUR'', status = ''completed'',
           payment_method = JStr ''card'', booking_reference = JStr ''BK1'',
           payer_id = JInt 7, timestamp = ''2024-01-01T09:00:00'',
           refund_id = None, refund_amount = None, refund_timestamp = None\<rparr>"
  have h1: "loads (decoding (JObj refund_payload)) [] = Inr (JObj refund_payload)"
    by (simp add: decoding_def)
  have h2: "dict_get refund_payload ''transaction_id'' = Some (JStr ''txn_0123456789abcdef'')"
    by (simp add: refund_payload_def dict_get_def)
  have h3: "map_of paid_transactions ''txn_0123456789abcdef'' = Some ?t"
    by (simp add: store_defs)
  have h4: "dict_get refund_payload ''amount'' = None"
    by (simp add: refund_payload_def dict_get_def)
  have h5: "\<forall>k. dict_get refund_payload ''transaction_id'' = Some (JStr k) \<longrightarrow> map_of [] k = None"
    by simp
  have pt: "paid_transactions = [(''txn_0123456789abcdef'', ?t)]"
    by (simp add: store_defs)
  from refund_defaults_to_amount[where lib = "decoding (JObj refund_payload)" and query = "[]"
      and d = refund_payload and k = "''txn_0123456789abcdef''" and ts = paid_transactions
      and t = ?t and token = "''fedcba9876543210''" and now = "''2024-01-05T08:00:00''"]
    h1 h2 h3 h4
  have a: "process_refund (decoding (JObj refund_payload)) ''fedcba9876543210''
             ''2024-01-05T08:00:00'' [] paid_transactions =
        (dumps (decoding (JObj refund_payload))
           (JObj [(''status'', JStr ''success''),
                  (''refund_id'', JStr (''ref_'' @ ''fedcba9876543210'')),
                  (''amount_refunded'', amount ?t),
                  (''message'', JStr ''Refund processed successfully'')]),
         AList.update ''txn_0123456789abcdef''
           (?t\<lparr>refund_id := Some (''ref_'' @ ''fedcba9876543210''),
                refund_amount := Some (amount ?t),
                refund_timestamp := Some ''2024-01-05T08:00:00''\<rparr>) paid_transactions)"
    by blast
  from refund_defaults_to_amount[where lib = "decoding (JObj refund_payload)" and query = "[]"
      and d = refund_payload and ts = "[]"
      and token = "''fedcba9876543210''" and now = "''2024-01-05T08:00:00''"]
    h1 h5
  have b: "\<exists>m. process_refund (decoding (JObj refund_payload)) ''fedcba9876543210''
            ''2024-01-05T08:00:00'' [] [] =
          (dumps (decoding (JObj refund_payload))
             (JObj [(''status'', JStr ''error''), (''message'', JStr m)]), [])"
    by blast
  from a b show ?thesis by (simp add: pt)
qed


section \<open>Marking a notification as read\<close>

lemma mark_found:
  assumes "loads lib query = Inr (JObj d)" and "dict_get d ''notification_id'' = Some (JStr k)"
    and "map_of ns k = Some n"
  shows "mark_notification_read lib now query ns =
           (dumps lib (JObj [(''status'', JStr ''success''),
                             (''message'', JStr ''Notification marked as read'')]),
            AList.update k (n\<lparr>is_read := True, read_at := Some now\<rparr>) ns)"
  using assms
  by (simp add: mark_notification_read_def tool_call_decoded mark_notification_read_body_def
        py_get_def dict_get_default_def dict_get_def table_find_str Let_def)


text \<open>
  \<^verbatim>\<open>_mark_notification_read\<close> writes \<^verbatim>\<open>read_at\<close> on every call, with no test of \<^verbatim>\<open>is_read\<close>.
  The notification below is marked at ten o'clock on the second of January and again at
  half past eleven on the third: after the second call \<^verbatim>\<open>read_at\<close> holds the second time.
\<close>

theorem read_at_overwritten_counterexample:
  "map (read_at \<circ> snd) marked_once = [Some ''2024-01-02T10:00:00''] \<and>
   map (read_at \<circ> snd) marked_twice = [Some ''2024-01-03T11:30:00''] \<and>
   map (is_read \<circ> snd) marked_twice = [True]"
  by (simp add: store_defs)


text \<open>
  C9, as the code has it. For a notification of the table, two calls in succession both
  succeed and leave \<^verbatim>\<open>is_read\<close> true; \<^verbatim>\<open>read_at\<close> is the time of the first call after the first
  and the time of the second call after the second, every other field being as before.
\<close>

theorem mark_read_twice:
  assumes q: "loads lib query = Inr (JObj d)" and k: "dict_get d ''notification_id'' = Some (JStr k)"
    and n: "map_of ns k = Some n"
    and first: "mark_notification_read lib t1 query ns = (r1, ns1)"
    and second: "mark_notification_read lib t2 query ns1 = (r2, ns2)"
  shows "r1 = dumps lib (JObj [(''status'', JStr ''success''),
                               (''message'', JStr ''Notification marked as read'')]) \<and>
         r2 = r1 \<and>
         map_of ns1 k = Some (n\<lparr>is_read := True, read_at := Some t1\<rparr>) \<and>
         map_of ns2 k = Some (n\<lparr>is_read := True, read_at := Some t2\<rparr>)"
proof -
  from first mark_found[OF q k n, of t1]
  have r1: "r1 = dumps lib (JObj [(''status'', JStr ''success''),
                               (''message'', JStr ''Notification marked as read'')])"
    and ns1: "ns1 = AList.update k (n\<lparr>is_read := True, read_at := Some t1\<rparr>) ns"
    by simp_all
  have m1: "map_of ns1 k = Some (n\<lparr>is_read := True, read_at := Some t1\<rparr>)"
    by (simp add: ns1 update_conv')
  from second mark_found[OF q k m1, of t2]
  have r2: "r2 = r1"
    and ns2: "ns2 = AList.update k (n\<lparr>is_read := True, read_at := Some t2\<rparr>) ns1"
    by (simp_all add: r1)
  have m2: "map_of ns2 k = Some (n\<lparr>is_read := True, read_at := Some t2\<rparr>)"
    by (simp add: ns2 update_conv')
  from r1 r2 m1 m2 show ?thesis by simp
qed

theorem mark_read_twice_witness:
  "\<exists>r. r = dumps (decoding (JObj mark_payload))
               (JObj [(''status'', JStr ''success''),
                      (''message'', JStr ''Notification marked as read'')]) \<and>
     map_of (snd (mark_notification_read (decoding (JObj mark_payload)) ''2024-01-03T11:30:00'' []
                     (snd (mark_notification_read (decoding (JObj mark_payload))
                              ''2024-01-02T10:00:00'' [] one_notification))))
            ''notif_1'' =
       Some \<lparr>notification_id = ''notif_1'', user_id = JInt 7,
              title = JStr ''Booked'', message = JStr ''Your trip is booked'',
              notification_type = JStr ''email'', metadata = JObj [],
              is_read = True, created_at = ''2024-01-01T09:00:00'',
              read_at = Some ''2024-01-03T11:30:00''\<rparr>"
proof -
  let ?lib = "decoding (JObj mark_payload)"
  let ?n = "\<lparr>notification_id = ''notif_1'', user_id = JInt 7,
              title = JStr ''Booked'', message = JStr ''Your trip is booked'',
              notification_type = JStr ''email'', metadata = JObj [],
              is_read = False, created_at = ''2024-01-01T09:00:00'',
              read_at = None\<rparr>"
  obtain r1 ns1 where first:
    "mark_notification_read ?lib ''2024-01-02T10:00:00'' [] one_notification = (r1, ns1)"
    by (cases "mark_notification_read ?lib ''2024-01-02T10:00:00'' [] one_notification")
  obtain r2 ns2 where second:
    "mark_notification_read ?lib ''2024-01-03T11:30:00'' [] ns1 = (r2, ns2)"
    by (cases "mark_notification_read ?lib ''2024-01-03T11:30:00'' [] ns1")
  have h1: "loads ?lib [] = Inr (JObj mark_payload)" by (simp add: decoding_def)
  have h2: "dict_get mark_payload ''notification_id'' = Some (JStr ''notif_1'')"
    by (simp add: mark_payload_def dict_get_def)
  have h3: "map_of one_notification ''notif_1'' = Some ?n"
    by (simp add: store_defs)
  from mark_read_twice[OF h1 h2 h3 first second] first second
  show ?thesis by simp
qed

lemma mark_cases:
  assumes "mark_notification_read lib now query ns = (r, ns')"
  shows "ns' = ns \<or>
         (\<exists>d k n. loads lib query = Inr (JObj d) \<and>
                  dict_get d ''notification_id'' = Some (JStr k) \<and> map_of ns k = Some n \<and>
                  ns' = AList.update k (n\<lparr>is_read := True, read_at := Some now\<rparr>) ns)"
proof (cases "loads lib query")
  case (Inl e)
  with assms show ?thesis by (simp add: mark_notification_read_def tool_call_def)
next
  case (Inr data)
  show ?thesis
  proof (cases "\<exists>d k n. data = JObj d \<and> dict_get d ''notification_id'' = Some (JStr k) \<and>
                          map_of ns k = Some n")
    case True
    then obtain d k n where d: "data = JObj d"
      and k: "dict_get d ''notification_id'' = Some (JStr k)" and n: "map_of ns k = Some n"
      by blast
    from mark_found[OF Inr[unfolded d] k n, of now] assms d k n Inr show ?thesis by auto
  next
    case False
    have "snd (mark_notification_read_body now data ns) = ns"
    proof (cases "py_get data ''notification_id'' JNull")
      case (Inl e)
      then show ?thesis by (simp add: mark_notification_read_body_def)
    next
      case nid: (Inr v)
      show ?thesis
      proof (cases "table_find v ns")
        case (Inl e)
        with nid show ?thesis by (simp add: mark_notification_read_body_def)
      next
        case (Inr found)
        show ?thesis
        proof (cases found)
          case None
          with Inr nid show ?thesis by (simp add: mark_notification_read_body_def)
        next
          case (Some p)
          obtain k n where p: "p = (k, n)" by (cases p)
          from table_find_Some[OF Inr[unfolded Some p]]
          have v: "v = JStr k" and m: "map_of ns k = Some n" by simp_all
          from nid v obtain d where "data = JObj d" "dict_get d ''notification_id'' = Some (JStr k)"
            by (auto simp: py_get_def dict_get_default_def dict_get_def
                     split: json.splits option.splits)
          with m False show ?thesis by blast
        qed
      qed
    qed
    with assms Inr have "ns' = ns"
      by (auto simp: mark_notification_read_def tool_call_def split: sum.splits prod.splits)
    then show ?thesis by simp
  qed
qed


text \<open>
  C10. Whatever the payload, \<^verbatim>\<open>_mark_notification_read\<close> leaves the table with the same
  identifiers in the same order; every notification keeps its identifier, user, title,
  message, type, metadata and creation time; a notification that the payload does not
  name is unchanged in every field; and when the payload names no notification of the
  table, the table is unchanged.
\<close>

theorem mark_read_frame:
  assumes run: "mark_notification_read lib now query ns = (r, ns')"
  shows "map fst ns' = map fst ns \<and>
         (\<forall>k n. map_of ns k = Some n \<longrightarrow>
            (\<exists>n'. map_of ns' k = Some n' \<and>
                  notification_id n' = notification_id n \<and> user_id n' = user_id n \<and>
                  title n' = title n \<and> message n' = message n \<and>
                  notification_type n' = notification_type n \<and> metadata n' = metadata n \<and>
                  created_at n' = created_at n)) \<and>
         (\<forall>k. (\<forall>d. loads lib query = Inr (JObj d) \<longrightarrow>
                    dict_get d ''notification_id'' \<noteq> Some (JStr k)) \<longrightarrow>
              map_of ns' k = map_of ns k) \<and>
         ((\<forall>d k. loads lib query = Inr (JObj d) \<and>
                  dict_get d ''notification_id'' = Some (JStr k) \<longrightarrow> map_of ns k = None) \<longrightarrow>
            ns' = ns)"
proof -
  from mark_cases[OF run] show ?thesis
  proof
    assume "ns' = ns"
    then show ?thesis by simp
  next
    assume "\<exists>d k n. loads lib query = Inr (JObj d) \<and>
                  dict_get d ''notification_id'' = Some (JStr k) \<and> map_of ns k = Some n \<and>
                  ns' = AList.update k (n\<lparr>is_read := True, read_at := Some now\<rparr>) ns"
    then obtain d k n where q: "loads lib query = Inr (JObj d)"
      and k: "dict_get d ''notification_id'' = Some (JStr k)" and n: "map_of ns k = Some n"
      and ns': "ns' = AList.update k (n\<lparr>is_read := True, read_at := Some now\<rparr>) ns"
      by blast
    from n have "k \<in> fst ` set ns" by (metis map_of_eq_None_iff option.distinct(1))
    then have keys: "map fst ns' = map fst ns"
      by (simp add: ns' update_keys)
    have fields: "\<forall>k' m. map_of ns k' = Some m \<longrightarrow>
            (\<exists>n'. map_of ns' k' = Some n' \<and>
                  notification_id n' = notification_id m \<and> user_id n' = user_id m \<and>
                  title n' = title m \<and> message n' = message m \<and>
                  notification_type n' = notification_type m \<and> metadata n' = metadata m \<and>
                  created_at n' = created_at m)"
      using n by (auto simp: ns' update_conv')
    have others: "\<forall>k'. (\<forall>d. loads lib query = Inr (JObj d) \<longrightarrow>
                    dict_get d ''notification_id'' \<noteq> Some (JStr k')) \<longrightarrow>
              map_of ns' k' = map_of ns k'"
      using q k by (auto simp: ns' update_conv')
    have absent: "(\<forall>d k. loads lib query = Inr (JObj d) \<and>
                  dict_get d ''notification_id'' = Some (JStr k) \<longrightarrow> map_of ns k = None) \<longrightarrow>
            ns' = ns"
      using q k n by auto
    from keys fields others absent show ?thesis by blast
  qed
qed


theorem mark_read_frame_witness:
  "map fst marked_once = map fst one_notification \<and>
   (\<exists>n'. map_of marked_once ''notif_1'' = Some n' \<and>
         notification_id n' = ''notif_1'' \<and> user_id n' = JInt 7 \<and>
         title n' = JStr ''Booked'' \<and> message n' = JStr ''Your trip is booked'' \<and>
         notification_type n' = JStr ''email'' \<and> metadata n' = JObj [] \<and>
         created_at n' = ''2024-01-01T09:00:00'') \<and>
   map_of (snd (mark_notification_read (decoding (JObj [(''notification_id'', JStr ''notif_9'')]))
                  ''2024-01-02T10:00:00'' [] one_notification)) ''notif_1'' =
     map_of one_notification ''notif_1'' \<and>
   snd (mark_notification_read (decoding (JObj [(''notification_id'', JStr ''notif_9'')]))
          ''2024-01-02T10:00:00'' [] one_notification) = one_notification"
proof -
  let ?lib = "decoding (JObj mark_payload)"
  let ?other = "decoding (JObj [(''notification_id'', JStr ''notif_9'')])"
  let ?n = "\<lparr>notification_id = ''notif_1'', user_id = JInt 7,
              title = JStr ''Booked'', message = JStr ''Your trip is booked'',
              notification_type = JStr ''email'', metadata = JObj [],
              is_read = False, created_at = ''2024-01-01T09:00:00'',
              read_at = None\<rparr>"
  have run: "mark_notification_read ?lib ''2024-01-02T10:00:00'' [] one_notification =
               (dumps ?lib (JObj [(''status'', JStr ''success''),
                                  (''message'', JStr ''Notification marked as read'')]),
                marked_once)"
    by (simp add: mark_notification_read_def tool_call_def store_defs)
  have n: "map_of one_notification ''notif_1'' = Some ?n"
    by (simp add: store_defs)
  from mark_read_frame[OF run] n
  have a: "map fst marked_once = map fst one_notification"
    and b: "\<exists>n'. map_of marked_once ''notif_1'' = Some n' \<and>
         notification_id n' = notification_id ?n \<and> user_id n' = user_id ?n \<and>
         title n' = title ?n \<and> message n' = message ?n \<and>
         notification_type n' = notification_type ?n \<and> metadata n' = metadata ?n \<and>
         created_at n' = created_at ?n"
    by blast+
  obtain r2 ns2 where run2:
    "mark_notification_read ?other ''2024-01-02T10:00:00'' [] one_notification = (r2, ns2)"
    by (cases "mark_notification_read ?other ''2024-01-02T10:00:00'' [] one_notification")
  have h3: "\<forall>d. loads ?other [] = Inr (JObj d) \<longrightarrow>
              dict_get d ''notification_id'' \<noteq> Some (JStr ''notif_1'')"
    by (simp add: decoding_def dict_get_def)
  have h4: "\<forall>d k. loads ?other [] = Inr (JObj d) \<and>
              dict_get d ''notification_id'' = Some (JStr k) \<longrightarrow> map_of one_notification k = None"
    by (auto simp: decoding_def dict_get_def store_defs)
  from mark_read_frame[OF run2] h3 h4
  have c: "map_of ns2 ''notif_1'' = map_of one_notification ''notif_1''"
    and d: "ns2 = one_notification"
    by blast+
  from a b c d run2 show ?thesis by simp
qed

section \<open>The tool boundary\<close>










section \<open>Cheapest and fastest option\<close>

lemma scan_min_least:
  assumes irr: "\<forall>a. \<not> lt a a"
    and trans: "\<forall>a b c. lt a b \<longrightarrow> lt b c \<longrightarrow> lt a c"
    and total: "\<forall>a b. \<not> lt a b \<longrightarrow> \<not> lt b a \<longrightarrow> a = b"
  shows "\<exists>k. (scan_min lt best xs, k) \<in> set (best # xs) \<and>
             (\<forall>p \<in> set (best # xs). \<not> lt (snd p) k)"
proof (induction xs arbitrary: best)
  case Nil
  have "(scan_min lt best [], snd best) \<in> set [best]" by simp
  moreover have "\<forall>p \<in> set [best]. \<not> lt (snd p) (snd best)" using irr by simp
  ultimately show ?case by blast
next
  case (Cons x xs)
  let ?b = "if lt (snd x) (snd best) then x else best"
  from Cons.IH[of ?b] obtain k where
    mem: "(scan_min lt ?b xs, k) \<in> set (?b # xs)"
    and least: "\<forall>p \<in> set (?b # xs). \<not> lt (snd p) k"
    by blast
  from least have nb: "\<not> lt (snd ?b) k" by simp
  have "\<not> lt (snd best) k \<and> \<not> lt (snd x) k"
  proof (cases "lt (snd x) (snd best)")
    case True
    with nb have nx: "\<not> lt (snd x) k" by simp
    have "\<not> lt (snd best) k"
    proof
      assume "lt (snd best) k"
      with True trans have "lt (snd x) k" by blast
      with nx show False by simp
    qed
    with nx show ?thesis by simp
  next
    case False
    with nb have nbest: "\<not> lt (snd best) k" by simp
    have "\<not> lt (snd x) k"
    proof
      assume xk: "lt (snd x) k"
      show False
      proof (cases "lt (snd best) (snd x)")
        case True
        with xk trans have "lt (snd best) k" by blast
        with nbest show False by simp
      next
        case nlt: False
        with False total have "snd x = snd best" by blast
        with xk nbest show False by simp
      qed
    qed
    with nbest show ?thesis by simp
  qed
  with least have "\<forall>p \<in> set (best # x # xs). \<not> lt (snd p) k" by simp
  moreover from mem have "(scan_min lt best (x # xs), k) \<in> set (best # x # xs)"
    by (auto split: if_splits)
  ultimately show ?case by blast
qed

lemma map_exn_length: "map_exn f xs = Inr ys \<Longrightarrow> length ys = length xs"
  by (induction xs arbitrary: ys) (auto split: sum.splits)

lemma min_by_least:
  assumes irr: "\<forall>a. \<not> lt a a"
    and trans: "\<forall>a b c. lt a b \<longrightarrow> lt b c \<longrightarrow> lt a c"
    and total: "\<forall>a b. \<not> lt a b \<longrightarrow> \<not> lt b a \<longrightarrow> a = b"
    and ne: "items \<noteq> []" and len: "length keys = length items"
  shows "\<exists>i<length items. min_by lt (zip items keys) = Inr (items ! i) \<and>
            (\<forall>j<length items. \<not> lt (keys ! j) (keys ! i))"
proof -
  from ne len obtain p ps where z: "zip items keys = p # ps"
    by (cases items; cases keys) auto
  from scan_min_least[of lt p ps, OF irr trans total] obtain k where
    mem: "(scan_min lt p ps, k) \<in> set (zip items keys)"
    and least: "\<forall>q \<in> set (zip items keys). \<not> lt (snd q) k"
    unfolding z by blast
  from mem obtain i where i: "i < length items" "items ! i = scan_min lt p ps" "keys ! i = k"
    using len by (auto simp: in_set_zip)
  have "\<not> lt (keys ! j) (keys ! i)" if "j < length items" for j
  proof -
    from that len have "(items ! j, keys ! j) \<in> set (zip items keys)"
      by (auto simp: in_set_zip)
    with least i(3) show ?thesis by auto
  qed
  moreover have "min_by lt (zip items keys) = Inr (items ! i)"
    by (simp add: min_by_def z i(2))
  ultimately show ?thesis using i(1) by blast
qed

lemma float_less_irrefl: "\<forall>a. \<not> float_less a a"
proof
  fix a show "\<not> float_less a a" by (cases a) auto
qed

lemma float_less_trans: "\<forall>a b c. float_less a b \<longrightarrow> float_less b c \<longrightarrow> float_less a c"
proof (intro allI impI)
  fix a b c assume "float_less a b" "float_less b c"
  then show "float_less a c" by (cases a; cases b; cases c) auto
qed

lemma float_less_total: "\<forall>a b. \<not> float_less a b \<longrightarrow> \<not> float_less b a \<longrightarrow> a = b"
proof (intro allI impI)
  fix a b assume "\<not> float_less a b" "\<not> float_less b a"
  then show "a = b" by (cases a; cases b) auto
qed

text \<open>
  With the keys of all options computed, each tool returns the first option of least
  key: for the price, an absent price counts as infinite; for the duration, the key is
  the duration as an integer. Without options, both return the error result.
\<close>

lemma find_cheapest_option_least:
  assumes o: "dict_get d ''options'' = Some (JArr items)" and ne: "items \<noteq> []"
    and keys: "map_exn (\<lambda>x. case py_get_opt x ''price'' of
                                Inl e \<Rightarrow> Inl e | Inr p \<Rightarrow> py_float lib p) items = Inr keys"
  shows "\<exists>i<length items.
           find_cheapest_option_body lib (JObj d) =
             Inr (JObj [(''status'', JStr ''success''), (''result'', items ! i)]) \<and>
           (\<forall>j<length items. \<not> float_less (keys ! j) (keys ! i))"
proof -
  from min_by_least[of float_less items keys, OF float_less_irrefl float_less_trans float_less_total ne
      map_exn_length[OF keys]]
  obtain i where i: "i < length items" "min_by float_less (zip items keys) = Inr (items ! i)"
    "\<forall>j<length items. \<not> float_less (keys ! j) (keys ! i)" by blast
  have "find_cheapest_option_body lib (JObj d) =
             Inr (JObj [(''status'', JStr ''success''), (''result'', items ! i)])"
    using o ne
    by (simp add: find_cheapest_option_body_def py_get_def dict_get_default_def dict_get_def
          py_iter_def keys i(2))
  with i show ?thesis by blast
qed

lemma find_fastest_option_least:
  assumes o: "dict_get d ''options'' = Some (JArr items)" and ne: "items \<noteq> []"
    and keys: "map_exn (\<lambda>x. case py_get_opt x ''duration_minutes'' of
                                Inl e \<Rightarrow> Inl e | Inr p \<Rightarrow> py_int lib p) items = Inr keys"
  shows "\<exists>i<length items.
           find_fastest_option_body lib (JObj d) =
             Inr (JObj [(''status'', JStr ''success''), (''result'', items ! i)]) \<and>
           (\<forall>j<length items. keys ! i \<le> keys ! j)"
proof -
  have "\<exists>i<length items. min_by (<) (zip items keys) = Inr (items ! i) \<and>
            (\<forall>j<length items. \<not> (keys ! j) < (keys ! i))"
    by (rule min_by_least[OF _ _ _ ne map_exn_length[OF keys]]) auto
  then obtain i where i: "i < length items" "min_by (<) (zip items keys) = Inr (items ! i)"
    "\<forall>j<length items. \<not> (keys ! j) < (keys ! i)" by blast
  have "find_fastest_option_body lib (JObj d) =
             Inr (JObj [(''status'', JStr ''success''), (''result'', items ! i)])"
    using o ne
    by (simp add: find_fastest_option_body_def py_get_def dict_get_default_def dict_get_def
          py_iter_def keys i(2))
  with i show ?thesis by (auto simp: not_less)
qed

lemma no_options_is_an_error:
  assumes "dict_get d ''options'' = None \<or> dict_get d ''options'' = Some (JArr [])"
  shows "find_cheapest_option_body lib (JObj d) = Inr no_options"
    and "find_fastest_option_body lib (JObj d) = Inr no_options"
  using assms
  by (auto simp: find_cheapest_option_body_def find_fastest_option_body_def py_get_def
        dict_get_default_def dict_get_def)

text \<open>An option without a duration makes \<^verbatim>\<open>_find_fastest_option\<close> raise, whatever the other options.\<close>

lemma missing_duration_raises:
  assumes o: "dict_get d ''options'' = Some (JArr items)"
    and i: "i < length items" and m: "items ! i = JObj x" "dict_get x ''duration_minutes'' = None"
  shows "\<exists>e. find_fastest_option_body lib (JObj d) = Inl e"
proof -
  have "\<exists>e. map_exn f xs = Inl e" if "j < length xs" "\<exists>e. f (xs ! j) = Inl e" for f :: "json \<Rightarrow> exn + int" and xs j
    using that
  proof (induction xs arbitrary: j)
    case Nil
    then show ?case by simp
  next
    case (Cons a xs)
    show ?case
    proof (cases j)
      case 0
      with Cons.prems show ?thesis by auto
    next
      case (Suc n)
      with Cons.prems Cons.IH[of n] show ?thesis by (auto split: sum.splits)
    qed
  qed
  from this[of i items "\<lambda>x. case py_get_opt x ''duration_minutes'' of
                                Inl e \<Rightarrow> Inl e | Inr p \<Rightarrow> py_int lib p"] i m
  obtain e where "map_exn (\<lambda>x. case py_get_opt x ''duration_minutes'' of
                                Inl e \<Rightarrow> Inl e | Inr p \<Rightarrow> py_int lib p) items = Inl e"
    by (auto simp: py_get_opt_def py_int_def)
  moreover from i have "items \<noteq> []" by auto
  ultimately show ?thesis
    using o
    by (simp add: find_fastest_option_body_def py_get_def dict_get_default_def dict_get_def
          py_iter_def)
qed

text \<open>
  The same conversion compares durations by their whole minutes: of two options of
  90.9 and 90.1 minutes, both of key \<open>90\<close>, the first is returned.
\<close>

lemma fastest_truncates_durations:
  "find_fastest_option_body test_lib
     (JObj [(''options'', JArr [JObj [(''duration_minutes'', JFloat (909 / 10))],
                                JObj [(''duration_minutes'', JFloat (901 / 10))]])]) =
     Inr (JObj [(''status'', JStr ''success''),
                (''result'', JObj [(''duration_minutes'', JFloat (909 / 10))])])"
proof -
  have a: "truncate (909 / 10) = 90"
    unfolding truncate_def by (simp add: floor_unique)
  have b: "truncate (901 / 10) = 90"
    unfolding truncate_def by (simp add: floor_unique)
  show ?thesis
    by (simp add: find_fastest_option_body_def py_get_def py_get_opt_def py_iter_def
          dict_get_default_def dict_get_def py_int_def min_by_def a b)
qed

text \<open>
  C6. The key of \<^verbatim>\<open>_find_fastest_option\<close> is \<^verbatim>\<open>int(x.get("duration_minutes", float('inf')))\<close>,
  and \<^verbatim>\<open>int\<close> of an infinite float raises \<^verbatim>\<open>OverflowError\<close>. On a list of one option that has
  a price and no duration, the body raises, so the tool returns an error result and no
  element of the list. \<^verbatim>\<open>_find_cheapest_option\<close>, whose key is
  \<^verbatim>\<open>float(x.get("price", float('inf')))\<close>, returns the option of a list of one option that has
  no price.
\<close>

theorem fastest_without_duration:
  "find_fastest_option_body test_lib (JObj [(''options'', JArr [JObj [(''price'', JInt 10)]])]) =
     Inl (OverflowError ''cannot convert float infinity to integer'') \<and>
   find_cheapest_option_body test_lib
     (JObj [(''options'', JArr [JObj [(''duration_minutes'', JInt 90)]])]) =
     Inr (JObj [(''status'', JStr ''success''),
                (''result'', JObj [(''duration_minutes'', JInt 90)])])"
  by (simp add: find_fastest_option_body_def find_cheapest_option_body_def py_get_def
        py_get_opt_def py_iter_def dict_get_default_def dict_get_def py_int_def py_float_def
        min_by_def)

section \<open>Ranking by preferences\<close>





















end
